theory Spec2Isabelle
  imports Complex_Main "HOL-Library.Sublist"
begin

section \<open>Document model\<close>

text \<open>
  The document tree of the collaborating model library, as the repository's code sees it:
  a node has a type identity, attributes, an annotation list and either children or a
  literal string. Positions and scores are JavaScript numbers; positions are modelled as
  \<open>int\<close>, the boundary score (a double) as the rational it denotes.
\<close>

type_synonym attrs = "(string \<times> string) list"

datatype mark = Mark (markType: string) (markAttrs: attrs)

datatype nodeType = NodeType (typeName: string) (typeInline: bool) (typeLeaf: bool)

datatype node =
    Node nodeType attrs "mark list" "node list"
  | TextNode string "mark list"

definition textType :: nodeType where
  "textType = NodeType ''text'' True True"

fun isText :: "node \<Rightarrow> bool" where
  "isText (TextNode s ms) = True"
| "isText (Node t a ms cs) = False"

fun textOf :: "node \<Rightarrow> string option" where
  "textOf (TextNode s ms) = Some s"
| "textOf (Node t a ms cs) = None"

fun ntype :: "node \<Rightarrow> nodeType" where
  "ntype (TextNode s ms) = textType"
| "ntype (Node t a ms cs) = t"

fun nattrs :: "node \<Rightarrow> attrs" where
  "nattrs (TextNode s ms) = []"
| "nattrs (Node t a ms cs) = a"

fun marks :: "node \<Rightarrow> mark list" where
  "marks (TextNode s ms) = ms"
| "marks (Node t a ms cs) = ms"

fun content :: "node \<Rightarrow> node list" where
  "content (TextNode s ms) = []"
| "content (Node t a ms cs) = cs"

definition isInline :: "node \<Rightarrow> bool" where
  "isInline n = typeInline (ntype n)"

text \<open>
  \<open>sameMarkup\<close>: equal type, attributes and annotation list, content ignored. The text
  type is the type of the text nodes and of no other node, so two nodes of equal type are
  both text nodes or neither is.
\<close>

definition sameMarkup :: "node \<Rightarrow> node \<Rightarrow> bool" where
  "sameMarkup a b \<longleftrightarrow>
    isText a = isText b \<and> ntype a = ntype b \<and> nattrs a = nattrs b \<and> marks a = marks b"

text \<open>A slice of a document: content with the open depth at each side.\<close>

datatype slice = Slice "node list" int int

datatype step =
    ReplaceStep int int slice
  | ReplaceAroundStep int int int int slice int bool
  | AddMarkStep int int mark
  | RemoveMarkStep int int mark

text \<open>
  What \<open>doc.resolve(pos)\<close> gives the code: the depth, the parent node, the offset into
  a text node, the node before the position and the annotation list in force there.
\<close>

record resolvedPos =
  depth :: int
  parent :: node
  textOffset :: int
  nodeBefore :: "node option"
  posMarks :: "mark list"

text \<open>A segment of the text-diff primitive: a string with the two flags the code tests.\<close>

record change =
  cvalue :: string
  added :: bool
  removed :: bool

text \<open>The Transform: the current document and the steps applied so far.\<close>

record transform =
  tdoc :: node
  tsteps :: "step list"

text \<open>
  Errors as values. \<open>Error\<close> is the \<open>new Error(message)\<close> this repository throws;
  \<open>RangeError\<close> and \<open>TransformError\<close> are thrown inside the collaborating libraries
  (position out of range, a step that does not apply) and pass through unchanged.
\<close>

datatype error = Error string | RangeError string | TransformError string

text \<open>
  The outcome of applying one step to a document: the call throws, or it returns a result
  that carries a failure message, or one that carries the new document.
\<close>

datatype stepResult = Thrown error | Failed string | Applied node

section \<open>The collaborators\<close>

text \<open>
  The model library, the step engine, the text diff and the two helpers of this
  repository whose files are not among the sources are taken as parameters. Every
  function of the repository below receives them as one record; the theorems hold for
  every such record unless a hypothesis says otherwise.
  \<^item> \<open>findDiffStart a b\<close> is \<open>a.content.findDiffStart(b.content)\<close>, \<open>findDiffEnd\<close>
    likewise with the pair \<open>(a, b)\<close> of end positions;
  \<^item> \<open>nodeAt\<close> is \<open>Inr None\<close> for \<open>null\<close> and \<open>Inl\<close> where the library throws;
  \<^item> \<open>resolve\<close> and \<open>sliceOf\<close> are \<open>None\<close> where the library throws a RangeError;
  \<^item> \<open>subTenth s n\<close> is the double \<open>s - n * 0.1\<close>;
  \<^item> \<open>stepApply\<close> is \<open>step.apply(doc)\<close>: the new document, the failure message of a
    step that does not apply, or the exception the call throws;
  \<^item> the Transform methods return the extended Transform or the error they throw;
  \<^item> \<open>descendants\<close> and \<open>nodesBetween\<close> list the nodes (with their positions) that
    the library's traversal hands to a callback that never returns \<open>false\<close>, in the
    order of the calls.
\<close>

record lib =
  findDiffStart :: "node \<Rightarrow> node \<Rightarrow> int option"
  findDiffEnd :: "node \<Rightarrow> node \<Rightarrow> (int \<times> int) option"
  nodeAt :: "node \<Rightarrow> int \<Rightarrow> error + node option"
  resolve :: "node \<Rightarrow> int \<Rightarrow> resolvedPos option"
  sliceOf :: "node \<Rightarrow> int \<Rightarrow> int \<Rightarrow> slice option"
  subTenth :: "int \<Rightarrow> int \<Rightarrow> rat"
  stepApply :: "step \<Rightarrow> node \<Rightarrow> stepResult"
  replaceWith :: "int \<Rightarrow> int \<Rightarrow> node \<Rightarrow> transform \<Rightarrow> error + transform"
  insertT :: "int \<Rightarrow> node \<Rightarrow> transform \<Rightarrow> error + transform"
  deleteT :: "int \<Rightarrow> int \<Rightarrow> transform \<Rightarrow> error + transform"
  setNodeMarkup :: "int \<Rightarrow> nodeType option \<Rightarrow> attrs \<Rightarrow> mark list \<Rightarrow> transform \<Rightarrow> error + transform"
  removeMark :: "int \<Rightarrow> int \<Rightarrow> mark \<Rightarrow> transform \<Rightarrow> error + transform"
  addMark :: "int \<Rightarrow> int \<Rightarrow> mark \<Rightarrow> transform \<Rightarrow> error + transform"
  diffChars :: "string \<Rightarrow> string \<Rightarrow> change list"
  diffWordsWithSpace :: "string \<Rightarrow> string \<Rightarrow> change list"
  descendants :: "node \<Rightarrow> (node \<times> int) list"
  nodesBetween :: "node \<Rightarrow> int \<Rightarrow> int \<Rightarrow> (node \<times> int) list"
  removeMarks :: "node \<Rightarrow> node"
  simplifyTransform :: "transform \<Rightarrow> transform option"

section \<open>getReplaceStep.ts\<close>

definition rangeError :: error where
  "rangeError = RangeError ''Position out of range''"

text \<open>
  \<open>calculateBoundaryScore\<close>. Factors 1 to 4 are integer arithmetic; factor 5 subtracts
  a tenth of the replacement size.
\<close>

definition calculateBoundaryScore :: "lib \<Rightarrow> node \<Rightarrow> node \<Rightarrow> int \<Rightarrow> int \<Rightarrow> int \<Rightarrow> error + rat" where
  "calculateBoundaryScore L fromDoc toDoc start endA endB =
    (case resolve L fromDoc start of
       None \<Rightarrow> Inl rangeError
     | Some fromPos \<Rightarrow>
       (case resolve L toDoc endA of
          None \<Rightarrow> Inl rangeError
        | Some toPosA \<Rightarrow>
          (case nodeAt L fromDoc start of
             Inl e \<Rightarrow> Inl e
           | Inr fromNode \<Rightarrow>
          (case nodeAt L toDoc start of
             Inl e \<Rightarrow> Inl e
           | Inr toNode \<Rightarrow>
          (let score1 = - ((depth fromPos + depth toPosA) * 2);
               score2 =
                 (case (fromNode, toNode) of
                    (Some f, Some t) \<Rightarrow>
                      if f = t then score1 + 20
                      else if sameMarkup f t then score1 + 5
                      else score1
                  | _ \<Rightarrow> score1);
               replacementSize = \<bar>endB - start\<bar> + \<bar>endA - start\<bar>
           in
             if start > 0 then
               (case resolve L toDoc start of
                  None \<Rightarrow> Inl rangeError
                | Some toPos \<Rightarrow>
                  (let score3 =
                     (case (nodeBefore fromPos, nodeBefore toPos) of
                        (Some fb, Some tb) \<Rightarrow>
                          if ntype fb = ntype tb then score2 + 3 else score2
                      | _ \<Rightarrow> score2)
                   in Inr (subTenth L score3 replacementSize)))
             else Inr (subTenth L score2 replacementSize))))))"

text \<open>
  \<open>getReplaceStep\<close>: \<open>Inr None\<close> is the result \<open>false\<close>. The destructuring of
  \<open>findDiffEnd\<close>'s result throws a TypeError when that result is null.
\<close>

definition typeError :: error where
  "typeError = TransformError ''TypeError: cannot destructure null''"

definition getReplaceStep :: "lib \<Rightarrow> node \<Rightarrow> node \<Rightarrow> error + step option" where
  "getReplaceStep L fromDoc toDoc =
    (case findDiffStart L toDoc fromDoc of
       None \<Rightarrow> Inr None
     | Some start \<Rightarrow>
       (case findDiffEnd L toDoc fromDoc of
          None \<Rightarrow> Inl typeError
        | Some (endA, endB) \<Rightarrow>
          (let overlap = start - min endA endB in
           if overlap > 0 then
             (case calculateBoundaryScore L fromDoc toDoc (start - overlap) endA endB of
                Inl e \<Rightarrow> Inl e
              | Inr scoreStart \<Rightarrow>
                (case calculateBoundaryScore L fromDoc toDoc start (endA + overlap) (endB + overlap) of
                   Inl e \<Rightarrow> Inl e
                 | Inr scoreEnd \<Rightarrow>
                   if scoreStart > scoreEnd then
                     (case sliceOf L toDoc (start - overlap) endA of
                        None \<Rightarrow> Inl rangeError
                      | Some s \<Rightarrow> Inr (Some (ReplaceStep (start - overlap) endB s)))
                   else
                     (case sliceOf L toDoc start (endA + overlap) of
                        None \<Rightarrow> Inl rangeError
                      | Some s \<Rightarrow> Inr (Some (ReplaceStep start (endB + overlap) s)))))
           else
             (case sliceOf L toDoc start endA of
                None \<Rightarrow> Inl rangeError
              | Some s \<Rightarrow> Inr (Some (ReplaceStep start endB s))))))"

section \<open>The RecreateTransform class\<close>

record options =
  complexSteps :: "bool option"
  wordDiffs :: "bool option"
  simplifyDiff :: "bool option"

datatype diffType = TextDiff | MarkupDiff | StructuralDiff

record diffResult =
  dtype :: diffType
  start :: int
  endFrom :: int
  endTo :: int
  fromNode :: "node option"
  toNode :: "node option"
  textNodeStart :: int

definition MAX_ITERATIONS :: nat where
  "MAX_ITERATIONS = 1000"

subsection \<open>classifyDiff\<close>

text \<open>The loop that counts the common prefix of the two strings, index by index.\<close>

fun commonPrefix :: "string \<Rightarrow> string \<Rightarrow> nat" where
  "commonPrefix (x # xs) (y # ys) = (if x = y then Suc (commonPrefix xs ys) else 0)"
| "commonPrefix xs ys = 0"

definition nodeIsText :: "node option \<Rightarrow> bool" where
  "nodeIsText n = (case n of None \<Rightarrow> False | Some m \<Rightarrow> isText m)"

definition textOrEmpty :: "node \<Rightarrow> string" where
  "textOrEmpty n = (case textOf n of None \<Rightarrow> [] | Some s \<Rightarrow> s)"

text \<open>The test of the first \<open>if\<close>: both nodes are text nodes with the same markup.\<close>

definition bothTextSameMarkup :: "node option \<Rightarrow> node option \<Rightarrow> bool" where
  "bothTextSameMarkup f t =
    (case (f, t) of
       (Some fn, Some tn) \<Rightarrow> isText fn \<and> isText tn \<and> sameMarkup fn tn
     | _ \<Rightarrow> False)"

text \<open>The test of the markup branch.\<close>

definition markupChange :: "node option \<Rightarrow> node option \<Rightarrow> bool" where
  "markupChange f t =
    (case (f, t) of
       (Some fn, Some tn) \<Rightarrow>
         \<not> isText fn \<and> \<not> isText tn \<and> content fn = content tn \<and> \<not> sameMarkup fn tn
     | _ \<Rightarrow> False)"

definition mkDiff :: "diffType \<Rightarrow> int \<Rightarrow> int \<Rightarrow> int \<Rightarrow> node option \<Rightarrow> node option \<Rightarrow> int \<Rightarrow> diffResult" where
  "mkDiff ty s ef et f t tns =
    \<lparr>dtype = ty, start = s, endFrom = ef, endTo = et, fromNode = f, toNode = t,
     textNodeStart = tns\<rparr>"

text \<open>The part of \<open>classifyDiff\<close> after \<open>textNodeStart\<close> is known.\<close>

definition classifyRest :: "lib \<Rightarrow> node \<Rightarrow> node \<Rightarrow> int \<Rightarrow> int \<Rightarrow> int \<Rightarrow> node option \<Rightarrow> node option \<Rightarrow> int \<Rightarrow> error + diffResult" where
  "classifyRest L fromDoc toDoc s ef et f t tns =
    (let other =
       (if markupChange f t then mkDiff MarkupDiff s ef et f t tns
        else mkDiff StructuralDiff s ef et f t tns)
     in
     if bothTextSameMarkup f t then
       (case resolve L fromDoc s of
          None \<Rightarrow> Inl rangeError
        | Some fromPos \<Rightarrow>
          (case resolve L toDoc s of
             None \<Rightarrow> Inl rangeError
           | Some toPos \<Rightarrow>
             if depth fromPos = depth toPos
                \<and> ntype (parent fromPos) = ntype (parent toPos)
                \<and> sameMarkup (parent fromPos) (parent toPos)
             then
               (let fromText = textOrEmpty (the f);
                    toText = textOrEmpty (the t)
                in if commonPrefix fromText toText > 0
                      \<or> length fromText = 0 \<or> length toText = 0
                   then Inr (mkDiff TextDiff s ef et f t tns)
                   else Inr other)
             else Inr other))
     else Inr other)"

definition classifyDiff :: "lib \<Rightarrow> node \<Rightarrow> node \<Rightarrow> int \<Rightarrow> int \<Rightarrow> int \<Rightarrow> error + diffResult" where
  "classifyDiff L fromDoc toDoc s ef et =
    (case nodeAt L fromDoc s of
       Inl e \<Rightarrow> Inl e
     | Inr f \<Rightarrow>
       (case nodeAt L toDoc s of
          Inl e \<Rightarrow> Inl e
        | Inr t \<Rightarrow>
          if nodeIsText f then
            (case resolve L fromDoc s of
               None \<Rightarrow> Inl rangeError
             | Some pos \<Rightarrow> classifyRest L fromDoc toDoc s ef et f t (s - textOffset pos))
          else classifyRest L fromDoc toDoc s ef et f t s))"

subsection \<open>applyTextDiff\<close>

text \<open>
  The calls the walk over the diff segments makes on the Transform. The arguments of a
  call depend on the segments, the running offset and the annotation list read before the
  loop, never on the Transform, so the walk is written as the list of its calls, run
  against the Transform afterwards, stopping at the first one that throws.
  \<open>Raise\<close> is the exception of \<open>schema.text\<close> on an empty string.
\<close>

datatype edit =
    ReplaceWith int int node
  | Insert int node
  | Delete int int
  | Raise error

definition emptyText :: error where
  "emptyText = RangeError ''Empty text nodes are not allowed''"

fun textEdits :: "mark list \<Rightarrow> int \<Rightarrow> change list \<Rightarrow> edit list" where
  "textEdits ms offset [] = []"
| "textEdits ms offset (d # ds) =
    (if added d then
       (if cvalue d = [] then [Raise emptyText]
        else
          (case ds of
             n # rest \<Rightarrow>
               if removed n then
                 ReplaceWith offset (offset + int (length (cvalue n))) (TextNode (cvalue d) ms)
                   # textEdits ms (offset + int (length (cvalue d))) rest
               else
                 Insert offset (TextNode (cvalue d) ms)
                   # textEdits ms (offset + int (length (cvalue d))) ds
           | [] \<Rightarrow>
               Insert offset (TextNode (cvalue d) ms)
                 # textEdits ms (offset + int (length (cvalue d))) ds))
     else if removed d then
       (case ds of
          n # rest \<Rightarrow>
            if added n then
              (if cvalue n = [] then [Raise emptyText]
               else
                 ReplaceWith offset (offset + int (length (cvalue d))) (TextNode (cvalue n) ms)
                   # textEdits ms (offset + int (length (cvalue n))) rest)
            else
              Delete offset (offset + int (length (cvalue d))) # textEdits ms offset ds
        | [] \<Rightarrow>
            Delete offset (offset + int (length (cvalue d))) # textEdits ms offset ds)
     else textEdits ms (offset + int (length (cvalue d))) ds)"

fun applyEdit :: "lib \<Rightarrow> edit \<Rightarrow> transform \<Rightarrow> error + transform" where
  "applyEdit L (ReplaceWith a b n) tr = replaceWith L a b n tr"
| "applyEdit L (Insert a n) tr = insertT L a n tr"
| "applyEdit L (Delete a b) tr = deleteT L a b tr"
| "applyEdit L (Raise e) tr = Inl e"

fun applyEdits :: "lib \<Rightarrow> edit list \<Rightarrow> transform \<Rightarrow> error + transform" where
  "applyEdits L [] tr = Inr tr"
| "applyEdits L (e # es) tr =
    (case applyEdit L e tr of Inl err \<Rightarrow> Inl err | Inr tr' \<Rightarrow> applyEdits L es tr')"

definition textDiffsOf :: "lib \<Rightarrow> bool \<Rightarrow> string \<Rightarrow> string \<Rightarrow> change list" where
  "textDiffsOf L wd fromText toText =
    (if wd then diffWordsWithSpace L fromText toText else diffChars L fromText toText)"

text \<open>A null \<open>fromNode\<close> or \<open>toNode\<close> makes the property access throw a TypeError.\<close>

definition nullAccess :: error where
  "nullAccess = TransformError ''TypeError: cannot read properties of null''"

definition applyTextDiff :: "lib \<Rightarrow> bool \<Rightarrow> diffResult \<Rightarrow> transform \<Rightarrow> error + transform" where
  "applyTextDiff L wd diff tr =
    (case (fromNode diff, toNode diff) of
       (Some f, Some t) \<Rightarrow>
         (case resolve L (tdoc tr) (textNodeStart diff + 1) of
            None \<Rightarrow> Inl rangeError
          | Some pos \<Rightarrow>
              applyEdits L
                (textEdits (posMarks pos) (textNodeStart diff)
                   (textDiffsOf L wd (textOrEmpty f) (textOrEmpty t)))
                tr)
     | _ \<Rightarrow> Inl nullAccess)"

subsection \<open>applyMarkupDiff, applyStructuralDiff, applyDiff\<close>

definition applyMarkupDiff :: "lib \<Rightarrow> diffResult \<Rightarrow> transform \<Rightarrow> error + transform" where
  "applyMarkupDiff L diff tr =
    (case (fromNode diff, toNode diff) of
       (Some f, Some t) \<Rightarrow>
         setNodeMarkup L (start diff)
           (if ntype f = ntype t then None else Some (ntype t)) (nattrs t) (marks t) tr
     | _ \<Rightarrow> Inl nullAccess)"

text \<open>
  \<open>tr.maybeStep(step)\<close> followed by the test of \<open>result.failed\<close>. An exception
  thrown while the step is applied passes through; a failed result becomes the error of
  this repository; otherwise the step is appended and the document replaced.
\<close>

definition maybeStep :: "lib \<Rightarrow> step \<Rightarrow> transform \<Rightarrow> error + transform" where
  "maybeStep L st tr =
    (case stepApply L st (tdoc tr) of
       Thrown e \<Rightarrow> Inl e
     | Failed failed \<Rightarrow> Inl (Error (''ReplaceStep failed: '' @ failed))
     | Applied d \<Rightarrow> Inr (tr\<lparr>tdoc := d, tsteps := tsteps tr @ [st]\<rparr>))"

definition applyStructuralDiff :: "lib \<Rightarrow> node \<Rightarrow> node \<Rightarrow> transform \<Rightarrow> error + transform" where
  "applyStructuralDiff L fromDoc toDoc tr =
    (case getReplaceStep L fromDoc toDoc of
       Inl e \<Rightarrow> Inl e
     | Inr None \<Rightarrow> Inr tr
     | Inr (Some st) \<Rightarrow> maybeStep L st tr)"

definition applyDiff :: "lib \<Rightarrow> bool \<Rightarrow> diffResult \<Rightarrow> node \<Rightarrow> node \<Rightarrow> transform \<Rightarrow> error + transform" where
  "applyDiff L wd diff fromDoc toDoc tr =
    (case dtype diff of
       TextDiff \<Rightarrow> applyTextDiff L wd diff tr
     | MarkupDiff \<Rightarrow> applyMarkupDiff L diff tr
     | StructuralDiff \<Rightarrow> applyStructuralDiff L fromDoc toDoc tr)"

subsection \<open>recreateStructuralSteps and recreateAllSteps\<close>

text \<open>
  The two bounded loops. A loop body gives \<open>Inr None\<close> for \<open>break\<close>, \<open>Inl\<close> for an
  exception and the Transform after its calls otherwise. Each loop returns the value of
  \<open>iterations\<close> when it is left (by its condition, by \<open>break\<close> or by an exception)
  together with the outcome.
\<close>

definition structuralBody :: "lib \<Rightarrow> bool \<Rightarrow> node \<Rightarrow> transform \<Rightarrow> node \<Rightarrow> error + transform option" where
  "structuralBody L wd toDocNoMarks tr currentDoc =
    (case findDiffStart L toDocNoMarks currentDoc of
       None \<Rightarrow> Inr None
     | Some s \<Rightarrow>
       (case findDiffEnd L toDocNoMarks currentDoc of
          None \<Rightarrow> Inr None
        | Some (eTo, eFrom) \<Rightarrow>
          (case classifyDiff L currentDoc toDocNoMarks s eFrom eTo of
             Inl e \<Rightarrow> Inl e
           | Inr diff \<Rightarrow>
             (case applyDiff L wd diff currentDoc toDocNoMarks tr of
                Inl e \<Rightarrow> Inl e
              | Inr tr' \<Rightarrow> Inr (Some tr')))))"

function structuralLoop :: "lib \<Rightarrow> bool \<Rightarrow> node \<Rightarrow> transform \<Rightarrow> node \<Rightarrow> nat \<Rightarrow> nat \<times> (error + transform)" where
  "structuralLoop L wd toDocNoMarks tr currentDoc iterations =
    (if iterations < MAX_ITERATIONS then
       (case structuralBody L wd toDocNoMarks tr currentDoc of
          Inl e \<Rightarrow> (iterations, Inl e)
        | Inr None \<Rightarrow> (iterations, Inr tr)
        | Inr (Some tr') \<Rightarrow>
            structuralLoop L wd toDocNoMarks tr' (removeMarks L (tdoc tr')) (iterations + 1))
     else (iterations, Inr tr))"
  by pat_completeness auto
termination
  by (relation "measure (\<lambda>(L, wd, t, tr, c, i). MAX_ITERATIONS - i)") auto

definition recreateStructuralSteps :: "lib \<Rightarrow> bool \<Rightarrow> node \<Rightarrow> node \<Rightarrow> transform \<Rightarrow> error + transform" where
  "recreateStructuralSteps L wd fromDoc toDoc tr =
    (case structuralLoop L wd (removeMarks L toDoc) tr (removeMarks L fromDoc) 0 of
       (iterations, Inl e) \<Rightarrow> Inl e
     | (iterations, Inr tr') \<Rightarrow>
         if iterations \<ge> MAX_ITERATIONS
         then Inl (Error ''Max iterations reached in recreateStructuralSteps'')
         else Inr tr')"

definition allBody :: "lib \<Rightarrow> node \<Rightarrow> transform \<Rightarrow> node \<Rightarrow> error + transform option" where
  "allBody L toDoc tr currentDoc =
    (case getReplaceStep L currentDoc toDoc of
       Inl e \<Rightarrow> Inl e
     | Inr None \<Rightarrow> Inr None
     | Inr (Some st) \<Rightarrow>
       (case maybeStep L st tr of
          Inl e \<Rightarrow> Inl e
        | Inr tr' \<Rightarrow> Inr (Some tr')))"

function allLoop :: "lib \<Rightarrow> node \<Rightarrow> transform \<Rightarrow> node \<Rightarrow> nat \<Rightarrow> nat \<times> (error + transform)" where
  "allLoop L toDoc tr currentDoc iterations =
    (if iterations < MAX_ITERATIONS then
       (case allBody L toDoc tr currentDoc of
          Inl e \<Rightarrow> (iterations, Inl e)
        | Inr None \<Rightarrow> (iterations, Inr tr)
        | Inr (Some tr') \<Rightarrow> allLoop L toDoc tr' (tdoc tr') (iterations + 1))
     else (iterations, Inr tr))"
  by pat_completeness auto
termination
  by (relation "measure (\<lambda>(L, t, tr, c, i). MAX_ITERATIONS - i)") auto

definition recreateAllSteps :: "lib \<Rightarrow> node \<Rightarrow> node \<Rightarrow> transform \<Rightarrow> error + transform" where
  "recreateAllSteps L fromDoc toDoc tr =
    (case allLoop L toDoc tr fromDoc 0 of
       (iterations, Inl e) \<Rightarrow> Inl e
     | (iterations, Inr tr') \<Rightarrow>
         if iterations \<ge> MAX_ITERATIONS
         then Inl (Error ''Max iterations reached in recreateAllSteps'')
         else Inr tr')"

subsection \<open>recreateChangeMarkSteps\<close>

text \<open>The size of a node in positions: a character each, one for a leaf, two more than
  its content otherwise.\<close>

fun nodeSize :: "node \<Rightarrow> int" where
  "nodeSize (TextNode s ms) = int (length s)"
| "nodeSize (Node t a ms cs) = (if typeLeaf t then 1 else 2 + sum_list (map nodeSize cs))"

datatype markOp = RemoveMarkOp int int mark | AddMarkOp int int mark

text \<open>The calls of the inner callback for one node of the current document.\<close>

definition nodeOps :: "node \<Rightarrow> int \<Rightarrow> node \<times> int \<Rightarrow> markOp list" where
  "nodeOps tNode tPos fp =
    (case fp of (fNode, fPos) \<Rightarrow>
       if \<not> isInline fNode then []
       else
         (let from = max tPos fPos;
              to = min (tPos + nodeSize tNode) (fPos + nodeSize fNode)
          in [RemoveMarkOp from to m. m \<leftarrow> marks fNode, m \<notin> set (marks tNode)]
             @ [AddMarkOp from to m. m \<leftarrow> marks tNode, m \<notin> set (marks fNode)]))"

fun applyMarkOp :: "lib \<Rightarrow> markOp \<Rightarrow> transform \<Rightarrow> error + transform" where
  "applyMarkOp L (RemoveMarkOp a b m) tr = removeMark L a b m tr"
| "applyMarkOp L (AddMarkOp a b m) tr = addMark L a b m tr"

fun applyMarkOps :: "lib \<Rightarrow> markOp list \<Rightarrow> transform \<Rightarrow> error + transform" where
  "applyMarkOps L [] tr = Inr tr"
| "applyMarkOps L (x # xs) tr =
    (case applyMarkOp L x tr of Inl e \<Rightarrow> Inl e | Inr tr' \<Rightarrow> applyMarkOps L xs tr')"

text \<open>
  The outer traversal. The inner traversal runs over the document the Transform holds
  when the outer callback is entered; the calls it makes change the Transform, not the
  document being traversed.
\<close>

fun markLoop :: "lib \<Rightarrow> (node \<times> int) list \<Rightarrow> transform \<Rightarrow> error + transform" where
  "markLoop L [] tr = Inr tr"
| "markLoop L ((tNode, tPos) # rest) tr =
    (if \<not> isInline tNode then markLoop L rest tr
     else
       (case applyMarkOps L
               (concat (map (nodeOps tNode tPos)
                  (nodesBetween L (tdoc tr) tPos (tPos + nodeSize tNode)))) tr of
          Inl e \<Rightarrow> Inl e
        | Inr tr' \<Rightarrow> markLoop L rest tr'))"

definition recreateChangeMarkSteps :: "lib \<Rightarrow> node \<Rightarrow> transform \<Rightarrow> error + transform" where
  "recreateChangeMarkSteps L toDoc tr = markLoop L (descendants L toDoc) tr"

subsection \<open>init and recreateTransform\<close>

definition optOr :: "bool option \<Rightarrow> bool \<Rightarrow> bool" where
  "optOr v d = (case v of None \<Rightarrow> d | Some b \<Rightarrow> b)"

definition newTransform :: "node \<Rightarrow> transform" where
  "newTransform d = \<lparr>tdoc = d, tsteps = []\<rparr>"

definition init :: "lib \<Rightarrow> options \<Rightarrow> node \<Rightarrow> node \<Rightarrow> error + transform" where
  "init L opts fromDoc toDoc =
    (let wd = optOr (wordDiffs opts) False;
         r =
           (if optOr (complexSteps opts) True then
              (case recreateStructuralSteps L wd fromDoc toDoc (newTransform fromDoc) of
                 Inl e \<Rightarrow> Inl e
               | Inr tr \<Rightarrow> recreateChangeMarkSteps L toDoc tr)
            else recreateAllSteps L fromDoc toDoc (newTransform fromDoc))
     in
     (case r of
        Inl e \<Rightarrow> Inl e
      | Inr tr \<Rightarrow>
          if optOr (simplifyDiff opts) True
          then (case simplifyTransform L tr of None \<Rightarrow> Inr tr | Some tr' \<Rightarrow> Inr tr')
          else Inr tr))"

definition recreateTransform :: "lib \<Rightarrow> node \<Rightarrow> node \<Rightarrow> options \<Rightarrow> error + transform" where
  "recreateTransform L fromDoc toDoc opts = init L opts fromDoc toDoc"

section \<open>Notions used to state the properties\<close>

text \<open>The replace edit built from a window: delete up to \<open>eB\<close> in the source, insert
  the target's slice up to \<open>eA\<close>.\<close>

definition windowStep :: "lib \<Rightarrow> node \<Rightarrow> int \<Rightarrow> int \<Rightarrow> int \<Rightarrow> error + step option" where
  "windowStep L toDoc s eA eB =
    (case sliceOf L toDoc s eA of
       None \<Rightarrow> Inl rangeError
     | Some sl \<Rightarrow> Inr (Some (ReplaceStep s eB sl)))"

text \<open>The condition under which a divergence is a text change, in the words of the
  specification.\<close>

definition textCondition :: "lib \<Rightarrow> node \<Rightarrow> node \<Rightarrow> int \<Rightarrow> bool" where
  "textCondition L fromDoc toDoc s \<longleftrightarrow>
    (\<exists>fn tn fp tp.
       nodeAt L fromDoc s = Inr (Some fn) \<and> nodeAt L toDoc s = Inr (Some tn)
       \<and> isText fn \<and> isText tn
       \<and> ntype fn = ntype tn \<and> nattrs fn = nattrs tn \<and> marks fn = marks tn
       \<and> resolve L fromDoc s = Some fp \<and> resolve L toDoc s = Some tp
       \<and> depth fp = depth tp
       \<and> ntype (parent fp) = ntype (parent tp)
       \<and> sameMarkup (parent fp) (parent tp)
       \<and> ((\<exists>p. p \<noteq> [] \<and> prefix p (textOrEmpty fn) \<and> prefix p (textOrEmpty tn))
            \<or> textOrEmpty fn = [] \<or> textOrEmpty tn = []))"

text \<open>The condition under which it is a markup change.\<close>

definition markupCondition :: "lib \<Rightarrow> node \<Rightarrow> node \<Rightarrow> int \<Rightarrow> bool" where
  "markupCondition L fromDoc toDoc s \<longleftrightarrow>
    (\<exists>fn tn.
       nodeAt L fromDoc s = Inr (Some fn) \<and> nodeAt L toDoc s = Inr (Some tn)
       \<and> \<not> isText fn \<and> \<not> isText tn \<and> content fn = content tn \<and> \<not> sameMarkup fn tn)"

text \<open>The Transform after \<open>k\<close> passes through a loop body, none of which breaks or
  throws; \<open>None\<close> when the loop does not get that far.\<close>

fun structIters :: "lib \<Rightarrow> bool \<Rightarrow> node \<Rightarrow> nat \<Rightarrow> transform \<Rightarrow> transform option" where
  "structIters L wd toDocNoMarks 0 tr = Some tr"
| "structIters L wd toDocNoMarks (Suc k) tr =
    (case structuralBody L wd toDocNoMarks tr (removeMarks L (tdoc tr)) of
       Inr (Some tr') \<Rightarrow> structIters L wd toDocNoMarks k tr'
     | _ \<Rightarrow> None)"

fun allIters :: "lib \<Rightarrow> node \<Rightarrow> nat \<Rightarrow> transform \<Rightarrow> transform option" where
  "allIters L toDoc 0 tr = Some tr"
| "allIters L toDoc (Suc k) tr =
    (case allBody L toDoc tr (tdoc tr) of
       Inr (Some tr') \<Rightarrow> allIters L toDoc k tr'
     | _ \<Rightarrow> None)"

text \<open>The last part of \<open>init\<close>: the Transform after the optional simplifier.\<close>

definition simplified :: "lib \<Rightarrow> options \<Rightarrow> transform \<Rightarrow> transform" where
  "simplified L os tr =
    (if optOr (simplifyDiff os) True
     then (case simplifyTransform L tr of None \<Rightarrow> tr | Some tr' \<Rightarrow> tr')
     else tr)"

text \<open>The text node an edit of the text run editor inserts.\<close>

fun insertedNode :: "edit \<Rightarrow> node option" where
  "insertedNode (ReplaceWith a b n) = Some n"
| "insertedNode (Insert a n) = Some n"
| "insertedNode (Delete a b) = None"
| "insertedNode (Raise e) = None"

text \<open>Applying a list of steps in order to a document.\<close>

fun replay :: "lib \<Rightarrow> step list \<Rightarrow> node \<Rightarrow> stepResult" where
  "replay L [] d = Applied d"
| "replay L (st # sts) d =
    (case stepApply L st d of
       Thrown e \<Rightarrow> Thrown e
     | Failed failed \<Rightarrow> Failed failed
     | Applied d' \<Rightarrow> replay L sts d')"

text \<open>
  The contracts of the collaborators. A Transform method extends the Transform: it
  appends steps, and applying them to the old document gives the new one. The locator
  reports no divergence only between documents of equal content, and its end scan finds
  one whenever its start scan does. The annotation methods change annotations only. The
  simplifier keeps the resulting document and returns steps that still lead to it.
\<close>

definition extends :: "lib \<Rightarrow> transform \<Rightarrow> transform \<Rightarrow> bool" where
  "extends L tr tr' \<longleftrightarrow>
    (\<exists>new. tsteps tr' = tsteps tr @ new \<and> replay L new (tdoc tr) = Applied (tdoc tr'))"




section \<open>A reference model of the collaborators\<close>

text \<open>
  The functions below give the collaborators a concrete form on the document model, so
  that the repository's functions can be evaluated on documents. They follow the
  behaviour the model library documents for the default schema conventions: every
  annotation is inclusive, annotation lists are kept in insertion order, and content
  validity against a schema is not checked. The engine applies replace steps whose slice
  is closed and whose two ends lie in one parent, the node-markup form of the
  replace-around step, and the two annotation steps; any other step is reported as
  failed.
\<close>

subsection \<open>Divergence locator, node lookup, position resolution\<close>

fun findDiffStartF :: "node list \<Rightarrow> node list \<Rightarrow> int \<Rightarrow> int option" where
  "findDiffStartF [] [] pos = None"
| "findDiffStartF [] (b # bs) pos = Some pos"
| "findDiffStartF (a # as) [] pos = Some pos"
| "findDiffStartF (TextNode s ms # as) (b # bs) pos =
    (if \<not> sameMarkup (TextNode s ms) b then Some pos
     else if textOf b \<noteq> Some s then Some (pos + int (commonPrefix s (textOrEmpty b)))
     else findDiffStartF as bs (pos + int (length s)))"
| "findDiffStartF (Node t av ms cs # as) (b # bs) pos =
    (if \<not> sameMarkup (Node t av ms cs) b then Some pos
     else
       (case findDiffStartF cs (content b) (pos + 1) of
          Some p \<Rightarrow> Some p
        | None \<Rightarrow> findDiffStartF as bs (pos + nodeSize (Node t av ms cs))))"

text \<open>The end of the divergence is found by the same scan over the mirrored documents,
  counting positions downwards.\<close>

fun mirror :: "node \<Rightarrow> node" where
  "mirror (TextNode s ms) = TextNode (rev s) ms"
| "mirror (Node t av ms cs) = Node t av ms (rev (map mirror cs))"

fun findDiffEndF :: "node list \<Rightarrow> node list \<Rightarrow> int \<Rightarrow> int \<Rightarrow> (int \<times> int) option" where
  "findDiffEndF [] [] posA posB = None"
| "findDiffEndF [] (b # bs) posA posB = Some (posA, posB)"
| "findDiffEndF (a # as) [] posA posB = Some (posA, posB)"
| "findDiffEndF (TextNode s ms # as) (b # bs) posA posB =
    (if \<not> sameMarkup (TextNode s ms) b then Some (posA, posB)
     else if textOf b \<noteq> Some s then
       (let same = int (commonPrefix s (textOrEmpty b)) in Some (posA - same, posB - same))
     else findDiffEndF as bs (posA - int (length s)) (posB - int (length s)))"
| "findDiffEndF (Node t av ms cs # as) (b # bs) posA posB =
    (if \<not> sameMarkup (Node t av ms cs) b then Some (posA, posB)
     else
       (case findDiffEndF cs (content b) (posA - 1) (posB - 1) of
          Some r \<Rightarrow> Some r
        | None \<Rightarrow>
            findDiffEndF as bs (posA - nodeSize (Node t av ms cs))
              (posB - nodeSize (Node t av ms cs))))"

definition contentSize :: "node \<Rightarrow> int" where
  "contentSize n = sum_list (map nodeSize (content n))"

definition findDiffStartR :: "node \<Rightarrow> node \<Rightarrow> int option" where
  "findDiffStartR a b = findDiffStartF (content a) (content b) 0"

definition findDiffEndR :: "node \<Rightarrow> node \<Rightarrow> (int \<times> int) option" where
  "findDiffEndR a b =
    findDiffEndF (content (mirror a)) (content (mirror b)) (contentSize a) (contentSize b)"

fun nodeAtF :: "node list \<Rightarrow> int \<Rightarrow> error + node option" where
  "nodeAtF [] pos = (if pos = 0 then Inr None else Inl rangeError)"
| "nodeAtF (TextNode s ms # cs) pos =
    (if pos < 0 then Inl rangeError
     else if pos < int (length s) then Inr (Some (TextNode s ms))
     else nodeAtF cs (pos - int (length s)))"
| "nodeAtF (Node t av ms ks # cs) pos =
    (if pos < 0 then Inl rangeError
     else if pos = 0 then Inr (Some (Node t av ms ks))
     else if pos < nodeSize (Node t av ms ks) then nodeAtF ks (pos - 1)
     else nodeAtF cs (pos - nodeSize (Node t av ms ks)))"

definition nodeAtR :: "node \<Rightarrow> int \<Rightarrow> error + node option" where
  "nodeAtR d pos = nodeAtF (content d) pos"

definition boundaryMarks :: "node option \<Rightarrow> node list \<Rightarrow> mark list" where
  "boundaryMarks prev cs =
    (case prev of
       Some p \<Rightarrow> marks p
     | None \<Rightarrow> (case cs of [] \<Rightarrow> [] | c # rest \<Rightarrow> marks c))"

definition atBoundary :: "node \<Rightarrow> node option \<Rightarrow> node list \<Rightarrow> int \<Rightarrow> resolvedPos" where
  "atBoundary par prev cs d =
    \<lparr>depth = d, parent = par, textOffset = 0, nodeBefore = prev,
     posMarks = boundaryMarks prev cs\<rparr>"

fun resolveF :: "node \<Rightarrow> node option \<Rightarrow> node list \<Rightarrow> int \<Rightarrow> int \<Rightarrow> resolvedPos option" where
  "resolveF par prev [] pos d = (if pos = 0 then Some (atBoundary par prev [] d) else None)"
| "resolveF par prev (TextNode s ms # cs) pos d =
    (if pos < 0 then None
     else if pos = 0 then Some (atBoundary par prev (TextNode s ms # cs) d)
     else if pos < int (length s) then
       Some \<lparr>depth = d, parent = par, textOffset = pos,
             nodeBefore = Some (TextNode (take (nat pos) s) ms), posMarks = ms\<rparr>
     else resolveF par (Some (TextNode s ms)) cs (pos - int (length s)) d)"
| "resolveF par prev (Node t av ms ks # cs) pos d =
    (if pos < 0 then None
     else if pos = 0 then Some (atBoundary par prev (Node t av ms ks # cs) d)
     else if pos < nodeSize (Node t av ms ks) then
       resolveF (Node t av ms ks) None ks (pos - 1) (d + 1)
     else resolveF par (Some (Node t av ms ks)) cs (pos - nodeSize (Node t av ms ks)) d)"

definition resolveR :: "node \<Rightarrow> int \<Rightarrow> resolvedPos option" where
  "resolveR d pos = resolveF d None (content d) pos 0"


subsection \<open>Slices and traversals\<close>

text \<open>\<open>cutF\<close> is the content between two positions of a child list; \<open>sharedF\<close> finds
  the deepest node whose content holds both ends of a range; \<open>depthIn\<close> is the depth of a
  position below the list.\<close>

fun cutF :: "node list \<Rightarrow> int \<Rightarrow> int \<Rightarrow> node list" where
  "cutF [] from to = []"
| "cutF (TextNode s ms # cs) from to =
    (if 0 < to then
       (if int (length s) > from then
          [if 0 < from \<or> int (length s) > to
           then TextNode (take (nat (min (int (length s)) to) - nat (max 0 from))
                            (drop (nat (max 0 from)) s)) ms
           else TextNode s ms]
        else [])
       @ cutF cs (from - int (length s)) (to - int (length s))
     else [])"
| "cutF (Node t av ms ks # cs) from to =
    (if 0 < to then
       (if nodeSize (Node t av ms ks) > from then
          [if 0 < from \<or> nodeSize (Node t av ms ks) > to
           then Node t av ms
                  (cutF ks (max 0 (from - 1)) (min (sum_list (map nodeSize ks)) (to - 1)))
           else Node t av ms ks]
        else [])
       @ cutF cs (from - nodeSize (Node t av ms ks)) (to - nodeSize (Node t av ms ks))
     else [])"

fun depthIn :: "node list \<Rightarrow> int \<Rightarrow> int" where
  "depthIn [] pos = 0"
| "depthIn (TextNode s ms # cs) pos =
    (if pos < int (length s) then 0 else depthIn cs (pos - int (length s)))"
| "depthIn (Node t av ms ks # cs) pos =
    (if pos \<le> 0 then 0
     else if pos < nodeSize (Node t av ms ks) then 1 + depthIn ks (pos - 1)
     else depthIn cs (pos - nodeSize (Node t av ms ks)))"

fun sharedF :: "node list \<Rightarrow> int \<Rightarrow> int \<Rightarrow> (node list \<times> int \<times> int) option" where
  "sharedF [] f t = None"
| "sharedF (TextNode s ms # cs) f t =
    (if f < int (length s) then None else sharedF cs (f - int (length s)) (t - int (length s)))"
| "sharedF (Node ty av ms ks # cs) f t =
    (if f \<le> 0 then None
     else if f < nodeSize (Node ty av ms ks) then
       (if 1 \<le> t \<and> t \<le> nodeSize (Node ty av ms ks) - 1 then
          (case sharedF ks (f - 1) (t - 1) of
             Some r \<Rightarrow> Some r
           | None \<Rightarrow> Some (ks, f - 1, t - 1))
        else None)
     else sharedF cs (f - nodeSize (Node ty av ms ks)) (t - nodeSize (Node ty av ms ks)))"

definition sliceOfR :: "node \<Rightarrow> int \<Rightarrow> int \<Rightarrow> slice option" where
  "sliceOfR d from to =
    (if from = to then Some (Slice [] 0 0)
     else if resolveR d from = None \<or> resolveR d to = None then None
     else
       (case sharedF (content d) from to of
          Some (cs, f, t) \<Rightarrow> Some (Slice (cutF cs f t) (depthIn cs f) (depthIn cs t))
        | None \<Rightarrow>
            Some (Slice (cutF (content d) from to) (depthIn (content d) from)
                    (depthIn (content d) to))))"

fun nodesBetweenF :: "node list \<Rightarrow> int \<Rightarrow> int \<Rightarrow> int \<Rightarrow> (node \<times> int) list" where
  "nodesBetweenF [] from to p = []"
| "nodesBetweenF (TextNode s ms # cs) from to p =
    (if 0 < to then
       (if int (length s) > from then [(TextNode s ms, p)] else [])
       @ nodesBetweenF cs (from - int (length s)) (to - int (length s)) (p + int (length s))
     else [])"
| "nodesBetweenF (Node t av ms ks # cs) from to p =
    (if 0 < to then
       (if nodeSize (Node t av ms ks) > from then
          (Node t av ms ks, p)
            # nodesBetweenF ks (max 0 (from - 1)) (min (sum_list (map nodeSize ks)) (to - 1)) (p + 1)
        else [])
       @ nodesBetweenF cs (from - nodeSize (Node t av ms ks)) (to - nodeSize (Node t av ms ks))
           (p + nodeSize (Node t av ms ks))
     else [])"

definition nodesBetweenR :: "node \<Rightarrow> int \<Rightarrow> int \<Rightarrow> (node \<times> int) list" where
  "nodesBetweenR d from to = nodesBetweenF (content d) from to 0"

definition descendantsR :: "node \<Rightarrow> (node \<times> int) list" where
  "descendantsR d = nodesBetweenF (content d) 0 (contentSize d) 0"

text \<open>Adjacent text nodes with the same annotation list are one text node.\<close>

fun consJoin :: "node \<Rightarrow> node list \<Rightarrow> node list" where
  "consJoin (TextNode s ms) (TextNode s' ms' # rest) =
    (if ms = ms' then TextNode (s @ s') ms # rest
     else TextNode s ms # TextNode s' ms' # rest)"
| "consJoin n rest = n # rest"

definition joinText :: "node list \<Rightarrow> node list" where
  "joinText xs = foldr consJoin xs []"

text \<open>
  Modelled from the spec: \<open>removeMarks\<close>, whose file is not among the sources, produces
  the annotation-stripped copy of a document: the annotation lists of the inline content
  are emptied, and text runs that differed only in their annotations become one run.
\<close>

fun removeMarksR :: "node \<Rightarrow> node" where
  "removeMarksR (TextNode s ms) = TextNode s []"
| "removeMarksR (Node t av ms cs) =
    Node t av (if typeInline t then [] else ms) (joinText (map removeMarksR cs))"

subsection \<open>The step engine\<close>

text \<open>Appending two child lists: the seam joins two text nodes with the same markup.\<close>

definition appendF :: "node list \<Rightarrow> node list \<Rightarrow> node list" where
  "appendF xs ys =
    (if xs = [] then ys
     else if ys = [] then xs
     else
       (case (last xs, hd ys) of
          (TextNode s ms, TextNode s' ms') \<Rightarrow>
            if ms = ms' then butlast xs @ [TextNode (s @ s') ms] @ tl ys else xs @ ys
        | _ \<Rightarrow> xs @ ys))"

text \<open>True when the position lies strictly inside a non-text child of the list.\<close>

fun insideChild :: "node list \<Rightarrow> int \<Rightarrow> bool" where
  "insideChild [] pos = False"
| "insideChild (TextNode s ms # cs) pos =
    (if pos < int (length s) then False else insideChild cs (pos - int (length s)))"
| "insideChild (Node t av ms ks # cs) pos =
    (if pos \<le> 0 then False
     else if pos < nodeSize (Node t av ms ks) then True
     else insideChild cs (pos - nodeSize (Node t av ms ks)))"

definition sizeF :: "node list \<Rightarrow> int" where
  "sizeF cs = sum_list (map nodeSize cs)"

text \<open>
  Replacing the range between two positions of one parent by closed content: the content
  before, the new content and the content after, appended.
\<close>

fun replaceF :: "node list \<Rightarrow> int \<Rightarrow> int \<Rightarrow> node list \<Rightarrow> node list option" where
  "replaceF [] from to new = (if from = 0 \<and> to = 0 then Some new else None)"
| "replaceF (TextNode s ms # cs) from to new =
    (if from < 0 \<or> to < from then None
     else if from < int (length s) then
       (if insideChild (TextNode s ms # cs) to \<or> to > sizeF (TextNode s ms # cs) then None
        else Some (appendF (appendF (cutF (TextNode s ms # cs) 0 from) new)
                     (cutF (TextNode s ms # cs) to (sizeF (TextNode s ms # cs)))))
     else
       (case replaceF cs (from - int (length s)) (to - int (length s)) new of
          None \<Rightarrow> None
        | Some r \<Rightarrow> Some (appendF [TextNode s ms] r)))"
| "replaceF (Node t av ms ks # cs) from to new =
    (if from < 0 \<or> to < from then None
     else if from = 0 then
       (if insideChild (Node t av ms ks # cs) to \<or> to > sizeF (Node t av ms ks # cs) then None
        else Some (appendF new (cutF (Node t av ms ks # cs) to (sizeF (Node t av ms ks # cs)))))
     else if from < nodeSize (Node t av ms ks) then
       (if to < nodeSize (Node t av ms ks) then
          (case replaceF ks (from - 1) (to - 1) new of
             None \<Rightarrow> None
           | Some r \<Rightarrow> Some (Node t av ms r # cs))
        else None)
     else
       (case replaceF cs (from - nodeSize (Node t av ms ks)) (to - nodeSize (Node t av ms ks)) new of
          None \<Rightarrow> None
        | Some r \<Rightarrow> Some (appendF [Node t av ms ks] r)))"

text \<open>Rewriting the node that starts at a position.\<close>

fun rewriteAtF :: "node list \<Rightarrow> int \<Rightarrow> (node \<Rightarrow> node) \<Rightarrow> node list option" where
  "rewriteAtF [] pos g = None"
| "rewriteAtF (TextNode s ms # cs) pos g =
    (if pos < 0 then None
     else if pos < int (length s) then Some (g (TextNode s ms) # cs)
     else (case rewriteAtF cs (pos - int (length s)) g of
             None \<Rightarrow> None
           | Some r \<Rightarrow> Some (TextNode s ms # r)))"
| "rewriteAtF (Node t av ms ks # cs) pos g =
    (if pos < 0 then None
     else if pos = 0 then Some (g (Node t av ms ks) # cs)
     else if pos < nodeSize (Node t av ms ks) then
       (case rewriteAtF ks (pos - 1) g of
          None \<Rightarrow> None
        | Some r \<Rightarrow> Some (Node t av ms r # cs))
     else (case rewriteAtF cs (pos - nodeSize (Node t av ms ks)) g of
             None \<Rightarrow> None
           | Some r \<Rightarrow> Some (Node t av ms ks # r)))"

definition setContent :: "node \<Rightarrow> node list \<Rightarrow> node" where
  "setContent d cs = (case d of Node t av ms ks \<Rightarrow> Node t av ms cs | TextNode s ms \<Rightarrow> TextNode s ms)"

text \<open>
  Changing the annotation lists of the inline nodes in a range; a text node that the
  range cuts is split at the cut.
\<close>

fun markRangeF :: "(node \<Rightarrow> mark list \<Rightarrow> mark list) \<Rightarrow> node list \<Rightarrow> int \<Rightarrow> int \<Rightarrow> node list" where
  "markRangeF g [] from to = []"
| "markRangeF g (TextNode s ms # cs) from to =
    (let n = int (length s); a = nat (max 0 from); b = nat (min n to) in
     (if 0 < to \<and> n > from \<and> a < b then
        (if a > 0 then [TextNode (take a s) ms] else [])
        @ [TextNode (take (b - a) (drop a s)) (g (TextNode s ms) ms)]
        @ (if b < length s then [TextNode (drop b s) ms] else [])
      else [TextNode s ms])
     @ markRangeF g cs (from - n) (to - n))"
| "markRangeF g (Node t av ms ks # cs) from to =
    (let n = nodeSize (Node t av ms ks) in
     (if 0 < to \<and> n > from then
        Node t av (if typeInline t then g (Node t av ms ks) ms else ms)
          (joinText (markRangeF g ks (from - 1) (to - 1)))
      else Node t av ms ks)
     # markRangeF g cs (from - n) (to - n))"

definition isAtom :: "node \<Rightarrow> bool" where
  "isAtom n = (case n of TextNode s ms \<Rightarrow> True | Node t av ms ks \<Rightarrow> typeLeaf t)"

definition addToSet :: "mark \<Rightarrow> mark list \<Rightarrow> mark list" where
  "addToSet m ms = (if m \<in> set ms then ms else ms @ [m])"

definition stepFailed :: string where
  "stepFailed = ''Step not covered by the reference engine''"

text \<open>A position outside the document makes the library throw a RangeError.\<close>

definition outside :: "node \<Rightarrow> int \<Rightarrow> bool" where
  "outside d pos \<longleftrightarrow> pos < 0 \<or> pos > sizeF (content d)"

fun stepApplyR :: "step \<Rightarrow> node \<Rightarrow> stepResult" where
  "stepApplyR (ReplaceStep from to (Slice c os oe)) d =
    (if outside d from \<or> outside d to then Thrown rangeError
     else if os = 0 \<and> oe = 0 then
       (case replaceF (content d) from to c of
          Some r \<Rightarrow> Applied (setContent d r)
        | None \<Rightarrow> Failed stepFailed)
     else Failed stepFailed)"
| "stepApplyR (ReplaceAroundStep from to gapFrom gapTo (Slice c os oe) ins structure) d =
    (case nodeAtF (content d) from of
       Inl e \<Rightarrow> Thrown e
     | Inr None \<Rightarrow> Failed stepFailed
     | Inr (Some old) \<Rightarrow>
         (case c of
            [Node t av ms []] \<Rightarrow>
              if os = 0 \<and> oe = 0 \<and> ins = 1 \<and> \<not> isAtom old \<and> to = from + nodeSize old
                 \<and> gapFrom = from + 1 \<and> gapTo = to - 1
              then
                (case rewriteAtF (content d) from (\<lambda>n. Node t av ms (content n)) of
                   Some r \<Rightarrow> Applied (setContent d r)
                 | None \<Rightarrow> Failed stepFailed)
              else Failed stepFailed
          | _ \<Rightarrow> Failed stepFailed))"
| "stepApplyR (AddMarkStep from to m) d =
    (if outside d from \<or> outside d to then Thrown rangeError
     else Applied (setContent d
       (joinText (markRangeF (\<lambda>n ms. if isAtom n then addToSet m ms else ms) (content d) from to))))"
| "stepApplyR (RemoveMarkStep from to m) d =
    (if outside d from \<or> outside d to then Thrown rangeError
     else Applied (setContent d
       (joinText (markRangeF (\<lambda>n ms. removeAll m ms) (content d) from to))))"

text \<open>
  \<open>tr.step(step)\<close>: an exception passes through, a step that does not apply throws a
  TransformError.
\<close>

definition trStep :: "step \<Rightarrow> transform \<Rightarrow> error + transform" where
  "trStep st tr =
    (case stepApplyR st (tdoc tr) of
       Thrown e \<Rightarrow> Inl e
     | Failed failed \<Rightarrow> Inl (TransformError failed)
     | Applied d \<Rightarrow> Inr (tr\<lparr>tdoc := d, tsteps := tsteps tr @ [st]\<rparr>))"

fun trSteps :: "step list \<Rightarrow> transform \<Rightarrow> error + transform" where
  "trSteps [] tr = Inr tr"
| "trSteps (st # sts) tr =
    (case trStep st tr of Inl e \<Rightarrow> Inl e | Inr tr' \<Rightarrow> trSteps sts tr')"

definition replaceWithR :: "int \<Rightarrow> int \<Rightarrow> node \<Rightarrow> transform \<Rightarrow> error + transform" where
  "replaceWithR from to n tr =
    (if resolveR (tdoc tr) from = None \<or> resolveR (tdoc tr) to = None then Inl rangeError
     else trStep (ReplaceStep from to (Slice [n] 0 0)) tr)"

definition insertR :: "int \<Rightarrow> node \<Rightarrow> transform \<Rightarrow> error + transform" where
  "insertR pos n tr = replaceWithR pos pos n tr"

definition deleteR :: "int \<Rightarrow> int \<Rightarrow> transform \<Rightarrow> error + transform" where
  "deleteR from to tr =
    (if from = to then Inr tr
     else if resolveR (tdoc tr) from = None \<or> resolveR (tdoc tr) to = None then Inl rangeError
     else trStep (ReplaceStep from to (Slice [] 0 0)) tr)"

definition setNodeMarkupR :: "int \<Rightarrow> nodeType option \<Rightarrow> attrs \<Rightarrow> mark list \<Rightarrow> transform \<Rightarrow> error + transform" where
  "setNodeMarkupR pos ty av ms tr =
    (case nodeAtR (tdoc tr) pos of
       Inl e \<Rightarrow> Inl e
     | Inr None \<Rightarrow> Inl (RangeError ''No node at given position'')
     | Inr (Some n) \<Rightarrow>
         (let newNode = Node (case ty of None \<Rightarrow> ntype n | Some t \<Rightarrow> t) av ms [] in
          if isAtom n then replaceWithR pos (pos + nodeSize n) newNode tr
          else trStep (ReplaceAroundStep pos (pos + nodeSize n) (pos + 1) (pos + nodeSize n - 1)
                         (Slice [newNode] 0 0) 1 True) tr))"

text \<open>
  The ranges of the inline nodes in the traversal that satisfy a test, clipped to the
  range of the call; a range that starts where the one before ends extends it.
\<close>

fun markRanges :: "(node \<Rightarrow> bool) \<Rightarrow> int \<Rightarrow> int \<Rightarrow> (node \<times> int) list \<Rightarrow> (int \<times> int) list \<Rightarrow> (int \<times> int) list" where
  "markRanges P from to [] acc = acc"
| "markRanges P from to ((n, pos) # rest) acc =
    (if isInline n \<and> P n then
       (let a = max pos from; b = min (pos + nodeSize n) to in
        if acc \<noteq> [] \<and> snd (last acc) = a
        then markRanges P from to rest (butlast acc @ [(fst (last acc), b)])
        else markRanges P from to rest (acc @ [(a, b)]))
     else markRanges P from to rest acc)"

definition removeMarkR :: "int \<Rightarrow> int \<Rightarrow> mark \<Rightarrow> transform \<Rightarrow> error + transform" where
  "removeMarkR from to m tr =
    trSteps (map (\<lambda>(a, b). RemoveMarkStep a b m)
               (markRanges (\<lambda>n. m \<in> set (marks n)) from to (nodesBetweenR (tdoc tr) from to) []))
      tr"

definition addMarkR :: "int \<Rightarrow> int \<Rightarrow> mark \<Rightarrow> transform \<Rightarrow> error + transform" where
  "addMarkR from to m tr =
    trSteps (map (\<lambda>(a, b). AddMarkStep a b m)
               (markRanges (\<lambda>n. m \<notin> set (marks n)) from to (nodesBetweenR (tdoc tr) from to) []))
      tr"


subsection \<open>Text diff and simplifier\<close>

text \<open>A character or word diff that keeps a longest common subsequence, as a shortest
  edit script does.\<close>

fun lcs :: "'a list \<Rightarrow> 'a list \<Rightarrow> nat" where
  "lcs [] ys = 0"
| "lcs (x # xs) [] = 0"
| "lcs (x # xs) (y # ys) =
    (if x = y then Suc (lcs xs ys) else max (lcs xs (y # ys)) (lcs (x # xs) ys))"

datatype 'a diffOp = Keep 'a | Del 'a | Ins 'a

fun diffScript :: "'a list \<Rightarrow> 'a list \<Rightarrow> 'a diffOp list" where
  "diffScript [] ys = map Ins ys"
| "diffScript (x # xs) [] = map Del (x # xs)"
| "diffScript (x # xs) (y # ys) =
    (if x = y then Keep x # diffScript xs ys
     else if lcs xs (y # ys) \<ge> lcs (x # xs) ys then Del x # diffScript xs (y # ys)
     else Ins y # diffScript (x # xs) ys)"

text \<open>Grouping the script into segments; in a changed block the removed text comes first.\<close>

fun flush :: "string \<Rightarrow> string \<Rightarrow> string \<Rightarrow> change list" where
  "flush k d i =
    (if k = [] then [] else [\<lparr>cvalue = k, added = False, removed = False\<rparr>])
    @ (if d = [] then [] else [\<lparr>cvalue = d, added = False, removed = True\<rparr>])
    @ (if i = [] then [] else [\<lparr>cvalue = i, added = True, removed = False\<rparr>])"

fun segments :: "string diffOp list \<Rightarrow> string \<Rightarrow> string \<Rightarrow> string \<Rightarrow> change list" where
  "segments [] k d i = flush k d i"
| "segments (Keep x # ops) k d i =
    (if d = [] \<and> i = [] then segments ops (k @ x) [] []
     else flush k d i @ segments ops x [] [])"
| "segments (Del x # ops) k d i = segments ops k (d @ x) i"
| "segments (Ins x # ops) k d i = segments ops k d (i @ x)"

definition diffCharsR :: "string \<Rightarrow> string \<Rightarrow> change list" where
  "diffCharsR a b = segments (diffScript (map (\<lambda>c. [c]) a) (map (\<lambda>c. [c]) b)) [] [] []"

definition isSpace :: "char \<Rightarrow> bool" where
  "isSpace c = (c = CHR 0x20 \<or> c = CHR 0x09 \<or> c = CHR 0x0A \<or> c = CHR 0x0D)"

fun tokens :: "string \<Rightarrow> string \<Rightarrow> string list" where
  "tokens [] cur = (if cur = [] then [] else [cur])"
| "tokens (c # cs) cur =
    (if cur = [] \<or> isSpace (last cur) = isSpace c then tokens cs (cur @ [c])
     else cur # tokens cs [c])"

definition diffWordsWithSpaceR :: "string \<Rightarrow> string \<Rightarrow> change list" where
  "diffWordsWithSpaceR a b = segments (diffScript (tokens a []) (tokens b [])) [] [] []"

text \<open>
  Modelled from the spec: \<open>simplifyTransform\<close>, whose file is not among the sources, may
  merge or cancel steps and preserves the resulting document; it is \<open>undefined\<close> for a
  Transform without steps. The model merges nothing.
\<close>

definition simplifyTransformR :: "transform \<Rightarrow> transform option" where
  "simplifyTransformR tr = (if tsteps tr = [] then None else Some tr)"

definition refLib :: lib where
  "refLib =
    \<lparr>findDiffStart = findDiffStartR, findDiffEnd = findDiffEndR, nodeAt = nodeAtR,
     resolve = resolveR, sliceOf = sliceOfR,
     subTenth = (\<lambda>s n. of_int s - of_int n / 10),
     stepApply = stepApplyR, replaceWith = replaceWithR, insertT = insertR,
     deleteT = deleteR, setNodeMarkup = setNodeMarkupR, removeMark = removeMarkR,
     addMark = addMarkR, diffChars = diffCharsR, diffWordsWithSpace = diffWordsWithSpaceR,
     descendants = descendantsR, nodesBetween = nodesBetweenR,
     removeMarks = removeMarksR, simplifyTransform = simplifyTransformR\<rparr>"


subsection \<open>Example documents\<close>

definition pT :: nodeType where
  "pT = NodeType ''paragraph'' False False"

definition hT :: nodeType where
  "hT = NodeType ''heading'' False False"

definition docT :: nodeType where
  "docT = NodeType ''doc'' False False"

definition fnT :: nodeType where
  "fnT = NodeType ''footnote'' True False"

definition bold :: mark where
  "bold = Mark ''bold'' []"

definition mkdoc :: "node list \<Rightarrow> node" where
  "mkdoc cs = Node docT [] [] cs"

definition par :: "node list \<Rightarrow> node" where
  "par cs = Node pT [] [] cs"

definition heading :: "node list \<Rightarrow> node" where
  "heading cs = Node hT [] [] cs"

definition opts :: "bool \<Rightarrow> bool \<Rightarrow> bool \<Rightarrow> options" where
  "opts c w s = \<lparr>complexSteps = Some c, wordDiffs = Some w, simplifyDiff = Some s\<rparr>"

definition docAB :: node where
  "docAB = mkdoc [par [TextNode ''ab'' []]]"


definition docABC :: node where
  "docABC = mkdoc [par [TextNode ''ab'' []], heading [TextNode ''c'' []]]"

definition docABCb :: node where
  "docABCb = mkdoc [par [TextNode ''ab'' []], heading [TextNode ''c'' [bold]]]"

definition docBoldRun :: node where
  "docBoldRun = mkdoc [par [TextNode ''ab'' [bold], TextNode ''cd'' []]]"

definition docBoldRunX :: node where
  "docBoldRunX = mkdoc [par [TextNode ''ab'' [bold], TextNode ''cXd'' []]]"

definition docHelloWorld :: node where
  "docHelloWorld = mkdoc [par [TextNode ''Hello world'' []]]"

definition docHelloThere :: node where
  "docHelloThere = mkdoc [par [TextNode ''Hello there'' []]]"

definition docFootnote :: node where
  "docFootnote = mkdoc [par [Node fnT [] [] [TextNode ''x'' [bold]]]]"

text \<open>
  Collaborator records that depart from the reference model in one function: a step
  engine that accepts every step and leaves the document as it is, a character diff that
  reports no segment (the stalls that the iteration cap guards against), and a step
  engine that rejects every step.
\<close>

definition stalledLib :: lib where
  "stalledLib = refLib\<lparr>stepApply := (\<lambda>st d. Applied d)\<rparr>"

definition silentDiffLib :: lib where
  "silentDiffLib = refLib\<lparr>diffChars := (\<lambda>a b. [])\<rparr>"

definition rejectingLib :: lib where
  "rejectingLib = refLib\<lparr>stepApply := (\<lambda>st d. Failed ''Invalid content'')\<rparr>"

text \<open>An engine in which applying a step throws.\<close>

definition throwingLib :: lib where
  "throwingLib = refLib\<lparr>stepApply := (\<lambda>st d. Thrown (RangeError ''Position out of range''))\<rparr>"

text \<open>A document of \<open>n\<close> one-letter paragraphs, the letter annotated in the first
  \<open>k\<close> of them, and the annotation steps for the paragraphs from \<open>k\<close> on.\<close>

definition xPlain :: node where
  "xPlain = par [TextNode ''x'' []]"

definition xBold :: node where
  "xBold = par [TextNode ''x'' [bold]]"

definition boldDoc :: "nat \<Rightarrow> nat \<Rightarrow> node" where
  "boldDoc k n = mkdoc (replicate k xBold @ replicate (n - k) xPlain)"

definition boldSteps :: "nat \<Rightarrow> nat \<Rightarrow> step list" where
  "boldSteps k j = map (\<lambda>i. AddMarkStep (3 * int i + 1) (3 * int i + 2) bold) [k..<k + j]"

text \<open>A document of \<open>n\<close> empty blocks, the first \<open>k\<close> of them headings and the
  others paragraphs.\<close>

definition markupDoc :: "nat \<Rightarrow> nat \<Rightarrow> node" where
  "markupDoc k n = mkdoc (replicate k (heading []) @ replicate (n - k) (par []))"

section \<open>Properties\<close>

subsection \<open>The bounded loops\<close>

lemma structuralLoop_bound:
  "i \<le> MAX_ITERATIONS \<Longrightarrow>
   fst (structuralLoop L wd t tr c i) \<le> MAX_ITERATIONS
   \<and> (\<forall>e. snd (structuralLoop L wd t tr c i) = Inl e \<longrightarrow>
          fst (structuralLoop L wd t tr c i) < MAX_ITERATIONS)"
proof (induction L wd t tr c i rule: structuralLoop.induct)
  case (1 L wd t tr c i)
  show ?case
  proof (cases "i < MAX_ITERATIONS")
    case False
    with "1.prems" show ?thesis by simp
  next
    case True
    show ?thesis
    proof (cases "structuralBody L wd t tr c")
      case (Inl e)
      with True show ?thesis by simp
    next
      case (Inr r)
      show ?thesis
      proof (cases r)
        case None
        with Inr True show ?thesis by simp
      next
        case (Some tr')
        with Inr True "1.IH"[of r tr'] show ?thesis by simp
      qed
    qed
  qed
qed

lemma allLoop_bound:
  "i \<le> MAX_ITERATIONS \<Longrightarrow>
   fst (allLoop L t tr c i) \<le> MAX_ITERATIONS
   \<and> (\<forall>e. snd (allLoop L t tr c i) = Inl e \<longrightarrow> fst (allLoop L t tr c i) < MAX_ITERATIONS)"
proof (induction L t tr c i rule: allLoop.induct)
  case (1 L t tr c i)
  show ?case
  proof (cases "i < MAX_ITERATIONS")
    case False
    with "1.prems" show ?thesis by simp
  next
    case True
    show ?thesis
    proof (cases "allBody L t tr c")
      case (Inl e)
      with True show ?thesis by simp
    next
      case (Inr r)
      show ?thesis
      proof (cases r)
        case None
        with Inr True show ?thesis by simp
      next
        case (Some tr')
        with Inr True "1.IH"[of r tr'] show ?thesis by simp
      qed
    qed
  qed
qed

lemma structuralLoop_iters:
  "structIters L wd t k tr = Some tr' \<Longrightarrow> i + k \<le> MAX_ITERATIONS \<Longrightarrow>
   structuralLoop L wd t tr (removeMarks L (tdoc tr)) i
     = structuralLoop L wd t tr' (removeMarks L (tdoc tr')) (i + k)"
proof (induction k arbitrary: tr i)
  case 0
  then show ?case by simp
next
  case (Suc k)
  from Suc.prems(1) obtain tr1 where
    b: "structuralBody L wd t tr (removeMarks L (tdoc tr)) = Inr (Some tr1)"
    and r: "structIters L wd t k tr1 = Some tr'"
    by (auto split: sum.splits option.splits)
  from Suc.prems(2) have lt: "i < MAX_ITERATIONS" by simp
  from Suc.IH[OF r, of "i + 1"] Suc.prems(2)
  have "structuralLoop L wd t tr1 (removeMarks L (tdoc tr1)) (i + 1)
          = structuralLoop L wd t tr' (removeMarks L (tdoc tr')) (i + Suc k)" by simp
  with b lt show ?case by (subst structuralLoop.simps) simp
qed

lemma allLoop_iters:
  "allIters L t k tr = Some tr' \<Longrightarrow> i + k \<le> MAX_ITERATIONS \<Longrightarrow>
   allLoop L t tr (tdoc tr) i = allLoop L t tr' (tdoc tr') (i + k)"
proof (induction k arbitrary: tr i)
  case 0
  then show ?case by simp
next
  case (Suc k)
  from Suc.prems(1) obtain tr1 where
    b: "allBody L t tr (tdoc tr) = Inr (Some tr1)"
    and r: "allIters L t k tr1 = Some tr'"
    by (auto split: sum.splits option.splits)
  from Suc.prems(2) have lt: "i < MAX_ITERATIONS" by simp
  from Suc.IH[OF r, of "i + 1"] Suc.prems(2)
  have "allLoop L t tr1 (tdoc tr1) (i + 1) = allLoop L t tr' (tdoc tr') (i + Suc k)" by simp
  with b lt show ?case by (subst allLoop.simps) simp
qed

lemma structuralLoop_at_cap:
  "structuralLoop L wd t tr c MAX_ITERATIONS = (MAX_ITERATIONS, Inr tr)"
  by (subst structuralLoop.simps) simp

lemma allLoop_at_cap:
  "allLoop L t tr c MAX_ITERATIONS = (MAX_ITERATIONS, Inr tr)"
  by (subst allLoop.simps) simp

lemma structural_cap_error:
  assumes "tdoc tr = fromDoc"
    and "structIters L wd (removeMarks L toDoc) MAX_ITERATIONS tr = Some tr'"
  shows "recreateStructuralSteps L wd fromDoc toDoc tr
           = Inl (Error ''Max iterations reached in recreateStructuralSteps'')"
proof -
  from structuralLoop_iters[OF assms(2), of 0] assms(1)
  have "structuralLoop L wd (removeMarks L toDoc) tr (removeMarks L fromDoc) 0
          = (MAX_ITERATIONS, Inr tr')"
    by (simp add: structuralLoop_at_cap)
  then show ?thesis by (simp add: recreateStructuralSteps_def)
qed

lemma all_cap_error:
  assumes "tdoc tr = fromDoc"
    and "allIters L toDoc MAX_ITERATIONS tr = Some tr'"
  shows "recreateAllSteps L fromDoc toDoc tr
           = Inl (Error ''Max iterations reached in recreateAllSteps'')"
proof -
  from allLoop_iters[OF assms(2), of 0] assms(1)
  have "allLoop L toDoc tr fromDoc 0 = (MAX_ITERATIONS, Inr tr')"
    by (simp add: allLoop_at_cap)
  then show ?thesis by (simp add: recreateAllSteps_def)
qed

lemma structural_stall:
  assumes "structuralBody L wd t tr (removeMarks L (tdoc tr)) = Inr (Some tr)"
  shows "i \<le> MAX_ITERATIONS \<Longrightarrow>
    structuralLoop L wd t tr (removeMarks L (tdoc tr)) i = (MAX_ITERATIONS, Inr tr)"
proof (induction "MAX_ITERATIONS - i" arbitrary: i)
  case 0
  then have "i = MAX_ITERATIONS" by simp
  then show ?case by (simp add: structuralLoop_at_cap)
next
  case (Suc n)
  then have lt: "i < MAX_ITERATIONS" and n: "n = MAX_ITERATIONS - (i + 1)"
    and le: "i + 1 \<le> MAX_ITERATIONS" by simp_all
  from Suc.hyps(1)[OF n le] assms lt show ?case
    by (subst structuralLoop.simps) simp
qed

subsection \<open>The reference model on the block documents\<close>

lemma refLib_sel [simp]:
  "findDiffStart refLib = findDiffStartR" "findDiffEnd refLib = findDiffEndR"
  "nodeAt refLib = nodeAtR" "resolve refLib = resolveR" "sliceOf refLib = sliceOfR"
  "stepApply refLib = stepApplyR" "replaceWith refLib = replaceWithR"
  "insertT refLib = insertR" "deleteT refLib = deleteR"
  "setNodeMarkup refLib = setNodeMarkupR" "removeMark refLib = removeMarkR"
  "addMark refLib = addMarkR" "diffChars refLib = diffCharsR"
  "diffWordsWithSpace refLib = diffWordsWithSpaceR" "descendants refLib = descendantsR"
  "nodesBetween refLib = nodesBetweenR" "removeMarks refLib = removeMarksR"
  "simplifyTransform refLib = simplifyTransformR"
  by (simp_all add: refLib_def)

lemma size_block [simp]: "nodeSize (heading []) = 2" "nodeSize (par []) = 2"
  by (simp_all add: heading_def par_def hT_def pT_def)

lemma heading_ne_par [simp]: "\<not> sameMarkup (heading []) (par [])" "heading [] \<noteq> par []"
  by (simp_all add: sameMarkup_def heading_def par_def hT_def pT_def)

lemma findDiffStartF_headings:
  "findDiffStartF (replicate k (heading []) @ xs) (replicate k (heading []) @ ys) pos
     = findDiffStartF xs ys (pos + 2 * int k)"
proof (induction k arbitrary: pos)
  case 0
  then show ?case by simp
next
  case (Suc k)
  have "findDiffStartF (heading [] # (replicate k (heading []) @ xs))
          (heading [] # (replicate k (heading []) @ ys)) pos
        = findDiffStartF (replicate k (heading []) @ xs) (replicate k (heading []) @ ys) (pos + 2)"
    by (simp add: heading_def sameMarkup_def hT_def)
  with Suc.IH[of "pos + 2"] show ?case by (simp add: algebra_simps)
qed

lemma findDiffStart_markupDoc:
  assumes "k < n"
  shows "findDiffStartR (markupDoc n n) (markupDoc k n) = Some (2 * int k)"
proof -
  from assms obtain m where m: "n - k = Suc m" by (cases "n - k") auto
  from assms have n: "replicate n (heading []) = replicate k (heading []) @ replicate (n - k) (heading [])"
    by (simp add: replicate_add[symmetric])
  have "findDiffStartF (replicate n (heading [])) (replicate k (heading []) @ replicate (n - k) (par [])) 0
        = findDiffStartF (replicate (n - k) (heading [])) (replicate (n - k) (par [])) (2 * int k)"
    by (subst n) (simp only: findDiffStartF_headings, simp)
  also have "\<dots> = Some (2 * int k)"
    using m by (simp add: heading_def par_def sameMarkup_def hT_def pT_def)
  finally show ?thesis by (simp add: findDiffStartR_def markupDoc_def mkdoc_def)
qed

lemma findDiffStart_markupDoc_done:
  "findDiffStartR (markupDoc n n) (markupDoc n n) = None"
  using findDiffStartF_headings[of n "[]" "[]" 0]
  by (simp add: findDiffStartR_def markupDoc_def mkdoc_def)

lemma mirror_block [simp]: "mirror (heading []) = heading []" "mirror (par []) = par []"
  by (simp_all add: heading_def par_def)

lemma findDiffEnd_markupDoc:
  assumes "k < n"
  shows "\<exists>a b. findDiffEndR (markupDoc n n) (markupDoc k n) = Some (a, b)"
proof -
  from assms obtain m where m: "n - k = Suc m" by (cases "n - k") auto
  from assms obtain j where j: "n = Suc j" by (cases n) auto
  have a: "content (mirror (markupDoc n n)) = replicate n (heading [])"
    by (simp add: markupDoc_def mkdoc_def)
  have b: "content (mirror (markupDoc k n)) = replicate (n - k) (par []) @ replicate k (heading [])"
    by (simp add: markupDoc_def mkdoc_def)
  have "\<exists>r. findDiffEndF (replicate (Suc j) (heading [])) (replicate (Suc m) (par []) @ replicate k (heading [])) x y = Some r" for x y
    by (simp add: heading_def par_def sameMarkup_def hT_def pT_def)
  with a b m j show ?thesis by (simp add: findDiffEndR_def del: replicate_Suc) 
qed

lemma nodeAtF_skip:
  "nodeAtF (replicate k (heading []) @ xs) (2 * int k) = nodeAtF xs 0"
proof (induction k)
  case 0
  then show ?case by simp
next
  case (Suc k)
  have "nodeAtF (heading [] # (replicate k (heading []) @ xs)) (2 * int k + 2)
        = nodeAtF (replicate k (heading []) @ xs) (2 * int k)"
    by (simp add: heading_def hT_def)
  with Suc.IH show ?case by (simp add: algebra_simps)
qed

lemma nodeAt_markupDoc_from:
  assumes "k < n"
  shows "nodeAtR (markupDoc k n) (2 * int k) = Inr (Some (par []))"
proof -
  from assms obtain m where m: "n - k = Suc m" by (cases "n - k") auto
  then show ?thesis
    by (simp add: nodeAtR_def markupDoc_def mkdoc_def nodeAtF_skip) (simp add: par_def)
qed

lemma nodeAt_markupDoc_to:
  assumes "k < n"
  shows "nodeAtR (markupDoc n n) (2 * int k) = Inr (Some (heading []))"
proof -
  from assms obtain m where m: "n - k = Suc m" by (cases "n - k") auto
  from assms have n: "replicate n (heading []) = replicate k (heading []) @ replicate (n - k) (heading [])"
    by (simp add: replicate_add[symmetric])
  have "nodeAtF (replicate n (heading [])) (2 * int k) = nodeAtF (replicate (n - k) (heading [])) 0"
    by (subst n) (rule nodeAtF_skip)
  with m show ?thesis
    by (simp add: nodeAtR_def markupDoc_def mkdoc_def) (simp add: heading_def)
qed

lemma classify_markupDoc:
  assumes "k < n"
  shows "classifyDiff refLib (markupDoc k n) (markupDoc n n) (2 * int k) ef et
         = Inr (mkDiff MarkupDiff (2 * int k) ef et (Some (par [])) (Some (heading [])) (2 * int k))"
  using nodeAt_markupDoc_from[OF assms] nodeAt_markupDoc_to[OF assms]
  by (simp add: classifyDiff_def classifyRest_def nodeIsText_def bothTextSameMarkup_def
      markupChange_def par_def heading_def sameMarkup_def hT_def pT_def)

lemma rewriteAtF_skip:
  "rewriteAtF (replicate k (heading []) @ xs) (2 * int k) g
     = (case rewriteAtF xs 0 g of None \<Rightarrow> None | Some r \<Rightarrow> Some (replicate k (heading []) @ r))"
proof (induction k)
  case 0
  then show ?case by (simp split: option.splits)
next
  case (Suc k)
  have "rewriteAtF (heading [] # (replicate k (heading []) @ xs)) (2 * int k + 2) g
        = (case rewriteAtF (replicate k (heading []) @ xs) (2 * int k) g of
             None \<Rightarrow> None | Some r \<Rightarrow> Some (heading [] # r))"
    by (simp add: heading_def hT_def split: option.splits)
  with Suc.IH show ?case by (simp add: algebra_simps split: option.splits)
qed

lemma replicate_cons_same: "replicate k x @ x # ys = x # replicate k x @ ys"
  by (induction k) simp_all

lemma markupDoc_Suc:
  "mkdoc (replicate k (heading []) @ heading [] # replicate (n - Suc k) (par []))
         = markupDoc (Suc k) n"
  by (simp add: markupDoc_def replicate_cons_same)

lemma setNodeMarkup_markupDoc:
  assumes "k < n" and "tdoc tr = markupDoc k n"
  shows "\<exists>tr'. setNodeMarkupR (2 * int k) (Some hT) [] [] tr = Inr tr'
               \<and> tdoc tr' = markupDoc (Suc k) n"
proof -
  from assms obtain m where m: "n - k = Suc m" by (cases "n - k") auto
  then have m': "n - Suc k = m" by simp
  have c: "content (markupDoc k n) = replicate k (heading []) @ par [] # replicate m (par [])"
    using m by (simp add: markupDoc_def mkdoc_def)
  have na: "nodeAtF (content (markupDoc k n)) (2 * int k) = Inr (Some (par []))"
    using nodeAt_markupDoc_from[OF assms(1)] by (simp add: nodeAtR_def)
  have rw: "rewriteAtF (content (markupDoc k n)) (2 * int k) (\<lambda>n. Node hT [] [] (content n))
            = Some (replicate k (heading []) @ heading [] # replicate m (par []))"
    by (simp only: c rewriteAtF_skip) (simp add: par_def heading_def)
  have sc: "setContent (markupDoc k n) (replicate k (heading []) @ heading [] # replicate m (par []))
            = markupDoc (Suc k) n"
    using markupDoc_Suc[of k n] m' by (simp add: setContent_def markupDoc_def mkdoc_def)
  have "stepApplyR (ReplaceAroundStep (2 * int k) (2 * int k + 2) (2 * int k + 1) (2 * int k + 2 - 1)
           (Slice [Node hT [] [] []] 0 0) 1 True) (markupDoc k n) = Applied (markupDoc (Suc k) n)"
    using na rw sc by (simp add: isAtom_def par_def pT_def)
  then show ?thesis
    using nodeAt_markupDoc_from[OF assms(1)] assms(2)
    by (simp add: setNodeMarkupR_def trStep_def isAtom_def par_def pT_def Let_def
        del: stepApplyR.simps)
qed

lemma joinText_Nil [simp]: "joinText [] = []"
  by (simp add: joinText_def)

lemma joinText_Cons: "joinText (x # xs) = consJoin x (joinText xs)"
  by (simp add: joinText_def)

lemma joinText_blocks:
  "joinText (replicate k (heading []) @ replicate m (par [])) = replicate k (heading []) @ replicate m (par [])"
proof (induction k)
  case 0
  show ?case by (induction m) (simp_all add: par_def joinText_Cons)
next
  case (Suc k)
  then show ?case by (simp add: heading_def joinText_Cons)
qed

lemma removeMarks_markupDoc [simp]: "removeMarksR (markupDoc k n) = markupDoc k n"
proof -
  have "removeMarksR (heading []) = heading []" "removeMarksR (par []) = par []"
    by (simp_all add: heading_def par_def hT_def pT_def)
  then show ?thesis
    by (simp add: markupDoc_def mkdoc_def docT_def joinText_blocks)
qed

lemma body_markupDoc:
  assumes "k < n" and "tdoc tr = markupDoc k n"
  shows "\<exists>tr'. structuralBody refLib wd (markupDoc n n) tr (markupDoc k n) = Inr (Some tr')
               \<and> tdoc tr' = markupDoc (Suc k) n"
proof -
  from findDiffEnd_markupDoc[OF assms(1)] obtain a b where
    e: "findDiffEndR (markupDoc n n) (markupDoc k n) = Some (a, b)" by blast
  from setNodeMarkup_markupDoc[OF assms] obtain tr' where
    s: "setNodeMarkupR (2 * int k) (Some hT) [] [] tr = Inr tr'" "tdoc tr' = markupDoc (Suc k) n"
    by blast
  have "applyDiff refLib wd
          (mkDiff MarkupDiff (2 * int k) b a (Some (par [])) (Some (heading [])) (2 * int k))
          (markupDoc k n) (markupDoc n n) tr = Inr tr'"
    using s(1) by (simp add: applyDiff_def applyMarkupDiff_def mkDiff_def par_def heading_def
        hT_def pT_def)
  with e s(2) findDiffStart_markupDoc[OF assms(1)] classify_markupDoc[OF assms(1)]
  show ?thesis by (simp add: structuralBody_def)
qed

lemma iters_markupDoc:
  "k + j \<le> n \<Longrightarrow> tdoc tr = markupDoc k n \<Longrightarrow>
   \<exists>tr'. structIters refLib wd (markupDoc n n) j tr = Some tr' \<and> tdoc tr' = markupDoc (k + j) n"
proof (induction j arbitrary: k tr)
  case 0
  then show ?case by simp
next
  case (Suc j)
  then have lt: "k < n" by simp
  from body_markupDoc[OF lt Suc.prems(2)] obtain tr1 where
    b: "structuralBody refLib wd (markupDoc n n) tr (markupDoc k n) = Inr (Some tr1)"
    and d: "tdoc tr1 = markupDoc (Suc k) n" by blast
  from Suc.prems(1) have "Suc k + j \<le> n" by simp
  from Suc.IH[OF this d] obtain tr' where
    "structIters refLib wd (markupDoc n n) j tr1 = Some tr'" "tdoc tr' = markupDoc (Suc k + j) n"
    by blast
  with b Suc.prems(2) show ?case by simp
qed

subsection \<open>The reference locator meets its contract\<close>

lemma sameMarkup_refl [simp]: "sameMarkup a a"
  by (simp add: sameMarkup_def)

lemma sameMarkup_text:
  "sameMarkup (TextNode s ms) b \<Longrightarrow> textOf b = Some s \<Longrightarrow> b = TextNode s ms"
  by (cases b) (auto simp: sameMarkup_def)

lemma sameMarkup_node:
  "sameMarkup (Node t av ms cs) b \<Longrightarrow> content b = cs \<Longrightarrow> b = Node t av ms cs"
  by (cases b) (auto simp: sameMarkup_def)

lemma findDiffStartF_refl: "xs = ys \<Longrightarrow> findDiffStartF xs ys pos = None"
  by (induction xs ys pos rule: findDiffStartF.induct) auto


lemma findDiffEndF_None: "findDiffEndF xs ys pa pb = None \<Longrightarrow> xs = ys"
proof (induction xs ys pa pb rule: findDiffEndF.induct)
  case (4 s ms as b bs pa pb)
  from "4.prems" have sm: "sameMarkup (TextNode s ms) b" and tx: "textOf b = Some s"
    and r: "findDiffEndF as bs (pa - int (length s)) (pb - int (length s)) = None"
    by (auto split: if_splits simp: Let_def)
  from "4.IH"[OF _ _ r] sm tx have "as = bs" by simp
  with sameMarkup_text[OF sm tx] show ?case by simp
next
  case (5 t av ms cs as b bs pa pb)
  from "5.prems" have sm: "sameMarkup (Node t av ms cs) b"
    and i: "findDiffEndF cs (content b) (pa - 1) (pb - 1) = None"
    and r: "findDiffEndF as bs (pa - nodeSize (Node t av ms cs)) (pb - nodeSize (Node t av ms cs)) = None"
    by (auto split: if_splits option.splits)
  from "5.IH"(1)[OF _ i] sm have c: "content b = cs" by simp
  from "5.IH"(2)[OF _ i r] sm have "as = bs" by simp
  with sameMarkup_node[OF sm c] show ?case by simp
qed simp_all

lemma mirror_mirror [simp]: "mirror (mirror n) = n"
  by (induction n) (simp_all add: rev_map map_idI)

lemma mirror_content_eq:
  assumes "content (mirror a) = content (mirror b)"
  shows "content a = content b"
proof -
  have "content (mirror (mirror a)) = content (mirror (mirror b))"
    using assms by (cases "mirror a"; cases "mirror b") simp_all
  then show ?thesis by simp
qed


lemma findDiffEndR_None: "findDiffEndR a b = None \<Longrightarrow> findDiffStartR a b = None"
proof -
  assume "findDiffEndR a b = None"
  then have "content (mirror a) = content (mirror b)"
    by (simp add: findDiffEndR_def findDiffEndF_None)
  then have "content a = content b" by (rule mirror_content_eq)
  then show ?thesis by (simp add: findDiffStartR_def findDiffStartF_refl)
qed

subsection \<open>The stalled engine\<close>

lemma stalled_sel [simp]:
  "findDiffStart stalledLib = findDiffStartR" "findDiffEnd stalledLib = findDiffEndR"
  "nodeAt stalledLib = nodeAtR" "resolve stalledLib = resolveR" "sliceOf stalledLib = sliceOfR"
  "subTenth stalledLib = subTenth refLib" "stepApply stalledLib = (\<lambda>st d. Applied d)"
  by (simp_all add: stalledLib_def refLib_def)

lemma stalled_score:
  "calculateBoundaryScore stalledLib a b s x y = calculateBoundaryScore refLib a b s x y"
  by (simp add: calculateBoundaryScore_def cong: option.case_cong sum.case_cong if_cong)

lemma stalled_getReplaceStep:
  "getReplaceStep stalledLib a b = getReplaceStep refLib a b"
  by (simp add: getReplaceStep_def stalled_score
      cong: option.case_cong sum.case_cong prod.case_cong if_cong)

lemma stalled_body:
  assumes "getReplaceStep refLib (tdoc tr) b = Inr (Some st)"
  shows "allBody stalledLib b tr (tdoc tr) = Inr (Some (tr\<lparr>tsteps := tsteps tr @ [st]\<rparr>))"
  using assms
  by (simp add: allBody_def stalled_getReplaceStep maybeStep_def)

lemma stalled_iters:
  assumes "getReplaceStep refLib a b = Inr (Some st)"
  shows "tdoc tr = a \<Longrightarrow> \<exists>tr'. allIters stalledLib b k tr = Some tr'"
proof (induction k arbitrary: tr)
  case 0
  then show ?case by simp
next
  case (Suc k)
  from assms Suc.prems have g: "getReplaceStep refLib (tdoc tr) b = Inr (Some st)" by simp
  have "tdoc (tr\<lparr>tsteps := tsteps tr @ [st]\<rparr>) = a" using Suc.prems by simp
  from Suc.IH[OF this] stalled_body[OF g] show ?case by simp
qed

subsection \<open>Classification\<close>

lemma commonPrefix_pos_iff:
  "commonPrefix xs ys > 0 \<longleftrightarrow> (\<exists>p. p \<noteq> [] \<and> prefix p xs \<and> prefix p ys)"
proof
  assume "commonPrefix xs ys > 0"
  then obtain x xs' ys' where "xs = x # xs'" "ys = x # ys'"
    by (cases xs; cases ys) (auto split: if_splits)
  then have "prefix [x] xs \<and> prefix [x] ys" by simp
  then show "\<exists>p. p \<noteq> [] \<and> prefix p xs \<and> prefix p ys" by blast
next
  assume "\<exists>p. p \<noteq> [] \<and> prefix p xs \<and> prefix p ys"
  then obtain p where p: "p \<noteq> []" "prefix p xs" "prefix p ys" by blast
  then obtain a q where "p = a # q" by (cases p) auto
  with p obtain xs' ys' where "xs = a # xs'" "ys = a # ys'"
    by (auto simp: prefix_def)
  then show "commonPrefix xs ys > 0" by simp
qed

lemma classifyRest_dtype:
  assumes "classifyRest L fromDoc toDoc s ef et f t tns = Inr d"
    and "nodeAt L fromDoc s = Inr f" and "nodeAt L toDoc s = Inr t"
  shows "(dtype d = TextDiff \<longleftrightarrow> textCondition L fromDoc toDoc s)
    \<and> (dtype d = StructuralDiff \<longleftrightarrow>
          \<not> textCondition L fromDoc toDoc s \<and> \<not> markupCondition L fromDoc toDoc s)"
  using assms
  apply (cases f; cases t)
  apply (auto simp: classifyRest_def textCondition_def markupCondition_def
      bothTextSameMarkup_def markupChange_def mkDiff_def Let_def sameMarkup_def
      commonPrefix_pos_iff
      split: option.splits if_splits)
  done

subsection \<open>Detected divergences\<close>

lemma structuralBody_detected:
  assumes "\<forall>a b. findDiffEnd L a b = None \<longrightarrow> findDiffStart L a b = None"
    and "findDiffStart L t c \<noteq> None"
  shows "structuralBody L wd t tr c \<noteq> Inr None"
proof -
  from assms obtain s eT eF where "findDiffStart L t c = Some s" "findDiffEnd L t c = Some (eT, eF)"
    by (cases "findDiffStart L t c"; cases "findDiffEnd L t c") auto
  then show ?thesis
    by (simp add: structuralBody_def split: sum.splits)
qed

lemma recreate_error_init:
  assumes "optOr (complexSteps os) True"
    and "recreateStructuralSteps L (optOr (wordDiffs os) False) fromDoc toDoc (newTransform fromDoc) = Inl e"
  shows "recreateTransform L fromDoc toDoc os = Inl e"
  using assms by (simp add: recreateTransform_def init_def Let_def)

lemma silent_sel [simp]:
  "findDiffStart silentDiffLib = findDiffStartR" "findDiffEnd silentDiffLib = findDiffEndR"
  "removeMarks silentDiffLib = removeMarksR"
  by (simp_all add: silentDiffLib_def refLib_def)

subsection \<open>Transforms that extend one another\<close>


lemma extends_refl [simp]: "extends L tr tr"
  by (simp add: extends_def)















subsection \<open>The reference engine meets its contract\<close>














lemma structuralLoop_pass:
  assumes "structIters L wd t k tr0 = Some tr" and "k < MAX_ITERATIONS"
  shows "structuralLoop L wd t tr0 (removeMarks L (tdoc tr0)) 0 =
    (case structuralBody L wd t tr (removeMarks L (tdoc tr)) of
       Inl e \<Rightarrow> (k, Inl e)
     | Inr None \<Rightarrow> (k, Inr tr)
     | Inr (Some tr') \<Rightarrow> structuralLoop L wd t tr' (removeMarks L (tdoc tr')) (k + 1))"
proof -
  from structuralLoop_iters[OF assms(1), of 0] assms(2)
  have "structuralLoop L wd t tr0 (removeMarks L (tdoc tr0)) 0
          = structuralLoop L wd t tr (removeMarks L (tdoc tr)) k" by simp
  also have "\<dots> = (case structuralBody L wd t tr (removeMarks L (tdoc tr)) of
       Inl e \<Rightarrow> (k, Inl e)
     | Inr None \<Rightarrow> (k, Inr tr)
     | Inr (Some tr') \<Rightarrow> structuralLoop L wd t tr' (removeMarks L (tdoc tr')) (k + 1))"
    using assms(2) by (subst structuralLoop.simps) simp
  finally show ?thesis .
qed

lemma allLoop_pass:
  assumes "allIters L t k tr0 = Some tr" and "k < MAX_ITERATIONS"
  shows "allLoop L t tr0 (tdoc tr0) 0 =
    (case allBody L t tr (tdoc tr) of
       Inl e \<Rightarrow> (k, Inl e)
     | Inr None \<Rightarrow> (k, Inr tr)
     | Inr (Some tr') \<Rightarrow> allLoop L t tr' (tdoc tr') (k + 1))"
proof -
  from allLoop_iters[OF assms(1), of 0] assms(2)
  have "allLoop L t tr0 (tdoc tr0) 0 = allLoop L t tr (tdoc tr) k" by simp
  also have "\<dots> = (case allBody L t tr (tdoc tr) of
       Inl e \<Rightarrow> (k, Inl e)
     | Inr None \<Rightarrow> (k, Inr tr)
     | Inr (Some tr') \<Rightarrow> allLoop L t tr' (tdoc tr') (k + 1))"
    using assms(2) by (subst allLoop.simps) simp
  finally show ?thesis .
qed

lemma structural_pass_throws:
  assumes "structIters L wd (removeMarks L toDoc) k (newTransform fromDoc) = Some tr"
    and "k < MAX_ITERATIONS"
    and "structuralBody L wd (removeMarks L toDoc) tr (removeMarks L (tdoc tr)) = Inl e"
  shows "recreateStructuralSteps L wd fromDoc toDoc (newTransform fromDoc) = Inl e"
  using structuralLoop_pass[OF assms(1,2)] assms(3)
  by (simp add: recreateStructuralSteps_def newTransform_def)

lemma structural_pass_breaks:
  assumes "structIters L wd (removeMarks L toDoc) k (newTransform fromDoc) = Some tr"
    and "k < MAX_ITERATIONS"
    and "structuralBody L wd (removeMarks L toDoc) tr (removeMarks L (tdoc tr)) = Inr None"
  shows "recreateStructuralSteps L wd fromDoc toDoc (newTransform fromDoc) = Inr tr"
  using structuralLoop_pass[OF assms(1,2)] assms(2,3)
  by (simp add: recreateStructuralSteps_def newTransform_def)

lemma all_pass_throws:
  assumes "allIters L toDoc k (newTransform fromDoc) = Some tr"
    and "k < MAX_ITERATIONS"
    and "allBody L toDoc tr (tdoc tr) = Inl e"
  shows "recreateAllSteps L fromDoc toDoc (newTransform fromDoc) = Inl e"
  using allLoop_pass[OF assms(1,2)] assms(3)
  by (simp add: recreateAllSteps_def newTransform_def)

lemma all_pass_breaks:
  assumes "allIters L toDoc k (newTransform fromDoc) = Some tr"
    and "k < MAX_ITERATIONS"
    and "allBody L toDoc tr (tdoc tr) = Inr None"
  shows "recreateAllSteps L fromDoc toDoc (newTransform fromDoc) = Inr tr"
  using allLoop_pass[OF assms(1,2)] assms(2,3)
  by (simp add: recreateAllSteps_def newTransform_def)

lemma simple_mode_error:
  assumes "\<not> optOr (complexSteps os) True"
    and "recreateAllSteps L fromDoc toDoc (newTransform fromDoc) = Inl e"
  shows "recreateTransform L fromDoc toDoc os = Inl e"
  using assms by (simp add: recreateTransform_def init_def Let_def)

lemma simple_mode_returns:
  assumes "\<not> optOr (complexSteps os) True"
    and "recreateAllSteps L fromDoc toDoc (newTransform fromDoc) = Inr tr"
  shows "recreateTransform L fromDoc toDoc os = Inr (simplified L os tr)"
  using assms by (simp add: recreateTransform_def init_def Let_def simplified_def split: option.splits)

lemma detailed_mode_returns:
  assumes "optOr (complexSteps os) True"
    and "recreateStructuralSteps L (optOr (wordDiffs os) False) fromDoc toDoc (newTransform fromDoc) = Inr tr"
  shows "recreateTransform L fromDoc toDoc os =
    (case recreateChangeMarkSteps L toDoc tr of
       Inl e \<Rightarrow> Inl e | Inr tr' \<Rightarrow> Inr (simplified L os tr'))"
  using assms by (simp add: recreateTransform_def init_def Let_def simplified_def split: option.splits sum.splits)

lemma allIters_steps:
  "allIters L t k tr0 = Some tr \<Longrightarrow> length (tsteps tr) = length (tsteps tr0) + k"
proof (induction k arbitrary: tr0)
  case 0
  then show ?case by simp
next
  case (Suc k)
  from Suc.prems obtain tr1 where b: "allBody L t tr0 (tdoc tr0) = Inr (Some tr1)"
    and r: "allIters L t k tr1 = Some tr"
    by (auto split: sum.splits option.splits)
  from b have "length (tsteps tr1) = Suc (length (tsteps tr0))"
    by (auto simp: allBody_def maybeStep_def split: sum.splits option.splits stepResult.splits)
  with Suc.IH[OF r] show ?case by simp
qed

lemma structural_body_structural:
  assumes "findDiffStart L t c = Some s" and "findDiffEnd L t c = Some (eT, eF)"
    and "classifyDiff L c t s eF eT = Inr d" and "dtype d = StructuralDiff"
  shows "structuralBody L wd t tr c =
    (case getReplaceStep L c t of
       Inl e \<Rightarrow> Inl e
     | Inr None \<Rightarrow> Inr (Some tr)
     | Inr (Some st) \<Rightarrow>
         (case stepApply L st (tdoc tr) of
            Thrown e \<Rightarrow> Inl e
          | Failed failed \<Rightarrow> Inl (Error (''ReplaceStep failed: '' @ failed))
          | Applied d' \<Rightarrow> Inr (Some (tr\<lparr>tdoc := d', tsteps := tsteps tr @ [st]\<rparr>))))"
  using assms
  by (simp add: structuralBody_def applyDiff_def applyStructuralDiff_def maybeStep_def
      split: sum.splits option.splits stepResult.splits)

lemma getReplaceStep_detected:
  "findDiffStart L t c = Some s \<Longrightarrow> getReplaceStep L c t \<noteq> Inr None"
  by (auto simp: getReplaceStep_def Let_def split: option.splits sum.splits if_splits)

lemma structIters_Suc_end:
  "structIters L wd t k tr0 = Some tr \<Longrightarrow>
   structuralBody L wd t tr (removeMarks L (tdoc tr)) = Inr (Some tr') \<Longrightarrow>
   structIters L wd t (Suc k) tr0 = Some tr'"
proof (induction k arbitrary: tr0)
  case 0
  then show ?case by simp
next
  case (Suc k)
  from Suc.prems(1) obtain tr1 where
    b: "structuralBody L wd t tr0 (removeMarks L (tdoc tr0)) = Inr (Some tr1)"
    and r: "structIters L wd t k tr1 = Some tr"
    by (auto split: sum.splits option.splits)
  from Suc.IH[OF r Suc.prems(2)] b show ?case by simp
qed

lemma allIters_Suc_end:
  "allIters L t k tr0 = Some tr \<Longrightarrow> allBody L t tr (tdoc tr) = Inr (Some tr') \<Longrightarrow>
   allIters L t (Suc k) tr0 = Some tr'"
proof (induction k arbitrary: tr0)
  case 0
  then show ?case by simp
next
  case (Suc k)
  from Suc.prems(1) obtain tr1 where
    b: "allBody L t tr0 (tdoc tr0) = Inr (Some tr1)"
    and r: "allIters L t k tr1 = Some tr"
    by (auto split: sum.splits option.splits)
  from Suc.IH[OF r Suc.prems(2)] b show ?case by simp
qed

subsection \<open>A thousand annotation steps\<close>

lemma size_x [simp]: "nodeSize xPlain = 3" "nodeSize xBold = 3"
  by (simp_all add: xPlain_def xBold_def par_def pT_def)

lemma x_not_inline [simp]: "\<not> isInline xPlain" "\<not> isInline xBold"
  by (simp_all add: xPlain_def xBold_def par_def pT_def isInline_def)

lemma nodesBetweenF_done: "to \<le> 0 \<Longrightarrow> nodesBetweenF cs from to p = []"
proof (cases cs)
  case Nil
  then show ?thesis by simp
next
  case (Cons c cs')
  assume "to \<le> 0"
  with Cons show ?thesis by (cases c) simp_all
qed

lemma nodesBetweenF_skip:
  "0 \<le> f \<Longrightarrow> 0 < t \<Longrightarrow>
   nodesBetweenF (replicate i xBold @ cs) (3 * int i + f) (3 * int i + t) p
     = nodesBetweenF cs f t (p + 3 * int i)"
proof (induction i arbitrary: p)
  case 0
  then show ?case by simp
next
  case (Suc i)
  have "nodesBetweenF (xBold # (replicate i xBold @ cs)) (3 * int (Suc i) + f) (3 * int (Suc i) + t) p
      = nodesBetweenF (replicate i xBold @ cs) (3 * int i + f) (3 * int i + t) (p + 3)"
    using Suc.prems by (simp add: xBold_def par_def pT_def algebra_simps)
  with Suc.IH[OF Suc.prems, of "p + 3"] show ?case by (simp add: algebra_simps)
qed

lemma content_boldDoc:
  "k < n \<Longrightarrow> content (boldDoc k n) = replicate k xBold @ xPlain # replicate (n - Suc k) xPlain"
proof -
  assume "k < n"
  then obtain m where m: "n - k = Suc m" by (cases "n - k") auto
  then have "n - Suc k = m" by simp
  with m show ?thesis by (simp add: boldDoc_def mkdoc_def)
qed

lemma nodesBetween_boldDoc:
  assumes "k < n" and "a = 3 * int k + 1" and "b = 3 * int k + 2"
  shows "nodesBetweenR (boldDoc k n) a b = [(xPlain, 3 * int k), (TextNode ''x'' [], a)]"
proof -
  let ?rest = "xPlain # replicate (n - Suc k) xPlain"
  have "nodesBetweenR (boldDoc k n) a b
          = nodesBetweenF (replicate k xBold @ ?rest) (3 * int k + 1) (3 * int k + 2) 0"
    by (simp only: nodesBetweenR_def content_boldDoc[OF assms(1)] assms(2,3))
  also have "\<dots> = nodesBetweenF ?rest 1 2 (0 + 3 * int k)"
    by (rule nodesBetweenF_skip) simp_all
  also have "\<dots> = [(xPlain, 3 * int k), (TextNode ''x'' [], a)]"
    by (simp add: xPlain_def par_def pT_def nodesBetweenF_done assms(2))
  finally show ?thesis .
qed

lemma descendants_boldDoc_aux:
  "nodesBetweenF (replicate j xBold) f (3 * int j) p
     = concat (map (\<lambda>i. [(xBold, p + 3 * int i), (TextNode ''x'' [bold], p + 3 * int i + 1)]) [0..<j])"
  if "f \<le> 0"
  using that
proof (induction j arbitrary: f p)
  case 0
  then show ?case by simp
next
  case (Suc j)
  have s: "[0..<Suc j] = 0 # map Suc [0..<j]"
    by (simp add: upt_conv_Cons map_Suc_upt del: upt_Suc)
  have "nodesBetweenF (xBold # replicate j xBold) f (3 * int (Suc j)) p
      = (xBold, p) # (TextNode ''x'' [bold], p + 1)
          # nodesBetweenF (replicate j xBold) (f - 3) (3 * int j) (p + 3)"
    using Suc.prems by (simp add: xBold_def par_def pT_def nodesBetweenF_done)
  moreover have "f - 3 \<le> 0" using Suc.prems by simp
  ultimately show ?case
    using Suc.IH[of "f - 3" "p + 3"]
    by (simp add: s comp_def algebra_simps del: upt_Suc)
qed


lemma nodeSize_nonneg: "0 \<le> nodeSize n"
proof (induction n)
  case (Node t av ms cs)
  then have "0 \<le> sum_list (map nodeSize cs)" by (intro sum_list_nonneg) auto
  then show ?case by simp
next
  case (TextNode s ms)
  then show ?case by simp
qed

lemma markRangeF_done: "to \<le> 0 \<Longrightarrow> markRangeF g cs from to = cs"
proof (induction cs arbitrary: "from" to)
  case Nil
  then show ?case by simp
next
  case (Cons c cs)
  show ?case
  proof (cases c)
    case (Node t av ms ks)
    from nodeSize_nonneg[of "Node t av ms ks"] Cons.prems
    have "to - nodeSize (Node t av ms ks) \<le> 0" by simp
    from Cons.IH[OF this] Cons.prems Node show ?thesis by (simp add: Let_def)
  next
    case (TextNode s ms)
    from Cons.prems have "to - int (length s) \<le> 0" by simp
    from Cons.IH[OF this] Cons.prems TextNode show ?thesis by (simp add: Let_def)
  qed
qed

lemma markRangeF_skip:
  "0 \<le> f \<Longrightarrow>
   markRangeF g (replicate i xBold @ cs) (3 * int i + f) (3 * int i + t)
     = replicate i xBold @ markRangeF g cs f t"
proof (induction i)
  case 0
  then show ?case by simp
next
  case (Suc i)
  have "markRangeF g (xBold # (replicate i xBold @ cs)) (3 * int (Suc i) + f) (3 * int (Suc i) + t)
      = xBold # markRangeF g (replicate i xBold @ cs) (3 * int i + f) (3 * int i + t)"
    using Suc.prems by (simp add: xBold_def par_def pT_def Let_def algebra_simps)
  with Suc.IH[OF Suc.prems] show ?case by simp
qed

lemma joinText_nodes: "\<forall>x\<in>set xs. \<not> isText x \<Longrightarrow> joinText xs = xs"
proof (induction xs)
  case Nil
  then show ?case by simp
next
  case (Cons x xs)
  then show ?case by (cases x) (simp_all add: joinText_Cons)
qed

lemma x_not_text [simp]: "\<not> isText xPlain" "\<not> isText xBold"
  by (simp_all add: xPlain_def xBold_def par_def)

lemma sizeF_boldDoc: "k \<le> n \<Longrightarrow> sizeF (content (boldDoc k n)) = 3 * int n"
proof -
  assume "k \<le> n"
  then have "3 * int k + 3 * int (n - k) = 3 * int n" by simp
  then show ?thesis
    by (simp add: sizeF_def boldDoc_def mkdoc_def sum_list_replicate)
qed

lemma boldDoc_Suc:
  "mkdoc (replicate k xBold @ xBold # replicate (n - Suc k) xPlain) = boldDoc (Suc k) n"
  by (simp add: boldDoc_def replicate_cons_same)

lemma markStep_boldDoc:
  assumes "k < n"
  shows "stepApplyR (AddMarkStep (3 * int k + 1) (3 * int k + 2) bold) (boldDoc k n)
           = Applied (boldDoc (Suc k) n)"
proof -
  let ?g = "\<lambda>n ms. if isAtom n then addToSet bold ms else ms"
  let ?rest = "replicate (n - Suc k) xPlain"
  note c = content_boldDoc[OF assms]
  from assms have "k \<le> n" by simp
  note sz = sizeF_boldDoc[OF this]
  have o: "\<not> outside (boldDoc k n) (3 * int k + 1)" "\<not> outside (boldDoc k n) (3 * int k + 2)"
    using assms by (simp_all add: outside_def sz)
  have "markRangeF ?g (replicate k xBold @ xPlain # ?rest) (3 * int k + 1) (3 * int k + 2)
          = replicate k xBold @ markRangeF ?g (xPlain # ?rest) 1 2"
    by (rule markRangeF_skip) simp
  also have "markRangeF ?g (xPlain # ?rest) 1 2 = xBold # ?rest"
    by (simp add: xPlain_def xBold_def par_def pT_def Let_def markRangeF_done isAtom_def
        addToSet_def joinText_Cons)
  finally have m: "markRangeF ?g (content (boldDoc k n)) (3 * int k + 1) (3 * int k + 2)
                     = replicate k xBold @ xBold # ?rest"
    by (simp only: c)
  have j: "joinText (replicate k xBold @ xBold # ?rest) = replicate k xBold @ xBold # ?rest"
    by (rule joinText_nodes) auto
  have s: "setContent (boldDoc k n) cs = mkdoc cs" for cs
    by (simp add: setContent_def boldDoc_def mkdoc_def)
  show ?thesis
    using o by (simp only: stepApplyR.simps m j s boldDoc_Suc) simp
qed

lemma addMark_boldDoc:
  assumes "k < n" and "tdoc tr = boldDoc k n" and "a = 3 * int k + 1" and "b = 3 * int k + 2"
  shows "addMarkR a b bold tr
           = Inr (tr\<lparr>tdoc := boldDoc (Suc k) n, tsteps := tsteps tr @ [AddMarkStep a b bold]\<rparr>)"
proof -
  have nb: "nodesBetweenR (tdoc tr) a b = [(xPlain, 3 * int k), (TextNode ''x'' [], a)]"
    using nodesBetween_boldDoc[OF assms(1,3,4)] assms(2) by simp
  have mr: "markRanges (\<lambda>n. bold \<notin> set (marks n)) a b
              [(xPlain, 3 * int k), (TextNode ''x'' [], a)] [] = [(a, b)]"
    using assms(3,4) by (simp add: isInline_def Let_def textType_def xPlain_def par_def pT_def)
  have st: "stepApplyR (AddMarkStep a b bold) (tdoc tr) = Applied (boldDoc (Suc k) n)"
    using markStep_boldDoc[OF assms(1)] assms(2,3,4) by simp
  have "addMarkR a b bold tr = trSteps [AddMarkStep a b bold] tr"
    by (simp only: addMarkR_def nb mr) simp
  also have "\<dots> = Inr (tr\<lparr>tdoc := boldDoc (Suc k) n, tsteps := tsteps tr @ [AddMarkStep a b bold]\<rparr>)"
    by (simp only: trSteps.simps trStep_def st) simp
  finally show ?thesis .
qed

lemma markPass_boldDoc:
  assumes "k < n" and "tdoc tr = boldDoc k n" and "a = 3 * int k + 1"
  shows "applyMarkOps refLib
           (concat (map (nodeOps (TextNode ''x'' [bold]) a)
              (nodesBetween refLib (tdoc tr) a (a + nodeSize (TextNode ''x'' [bold]))))) tr
         = Inr (tr\<lparr>tdoc := boldDoc (Suc k) n,
                    tsteps := tsteps tr @ [AddMarkStep (3 * int k + 1) (3 * int k + 2) bold]\<rparr>)"
proof -
  have b: "a + nodeSize (TextNode ''x'' [bold]) = 3 * int k + 2" using assms(3) by simp
  have nb: "nodesBetweenR (tdoc tr) a (3 * int k + 2)
              = [(xPlain, 3 * int k), (TextNode ''x'' [], a)]"
    using nodesBetween_boldDoc[OF assms(1,3) refl] assms(2) by simp
  have ops: "concat (map (nodeOps (TextNode ''x'' [bold]) a)
               [(xPlain, 3 * int k), (TextNode ''x'' [], a)])
             = [AddMarkOp a (3 * int k + 2) bold]"
    using assms(3) by (simp add: nodeOps_def isInline_def Let_def textType_def xPlain_def par_def pT_def)
  have "applyMarkOps refLib
           (concat (map (nodeOps (TextNode ''x'' [bold]) a)
              (nodesBetween refLib (tdoc tr) a (a + nodeSize (TextNode ''x'' [bold]))))) tr
        = applyMarkOps refLib [AddMarkOp a (3 * int k + 2) bold] tr"
    by (simp only: refLib_sel b nb ops)
  also have "\<dots> = Inr (tr\<lparr>tdoc := boldDoc (Suc k) n,
                    tsteps := tsteps tr @ [AddMarkStep a (3 * int k + 2) bold]\<rparr>)"
    by (simp add: addMark_boldDoc[OF assms(1,2,3) refl])
  finally show ?thesis by (simp only: assms(3))
qed

lemma markLoop_boldDoc:
  "k + j \<le> n \<Longrightarrow> tdoc tr = boldDoc k n \<Longrightarrow>
   markLoop refLib
     (concat (map (\<lambda>i. [(xBold, 3 * int i), (TextNode ''x'' [bold], 3 * int i + 1)]) [k..<k + j])) tr
     = Inr (tr\<lparr>tdoc := boldDoc (k + j) n, tsteps := tsteps tr @ boldSteps k j\<rparr>)"
proof (induction j arbitrary: k tr)
  case 0
  then show ?case by (simp add: boldSteps_def)
next
  case (Suc j)
  let ?f = "\<lambda>i. [(xBold, 3 * int i), (TextNode ''x'' [bold], 3 * int i + 1)]"
  let ?st = "AddMarkStep (3 * int k + 1) (3 * int k + 2) bold"
  let ?tr1 = "tr\<lparr>tdoc := boldDoc (Suc k) n, tsteps := tsteps tr @ [?st]\<rparr>"
  from Suc.prems have lt: "k < n" and le: "Suc k + j \<le> n" by simp_all
  have u: "[k..<k + Suc j] = k # [Suc k..<Suc k + j]" by (simp add: upt_conv_Cons del: upt_Suc)
  have t1: "tdoc ?tr1 = boldDoc (Suc k) n" by simp
  have "markLoop refLib (concat (map ?f [k..<k + Suc j])) tr
          = markLoop refLib ((xBold, 3 * int k) # (TextNode ''x'' [bold], 3 * int k + 1)
              # concat (map ?f [Suc k..<Suc k + j])) tr"
    by (simp only: u list.map concat.simps append.simps)
  also have "\<dots> = markLoop refLib (concat (map ?f [Suc k..<Suc k + j])) ?tr1"
    using markPass_boldDoc[OF lt Suc.prems(2) refl]
    by (simp add: isInline_def textType_def xBold_def par_def pT_def del: upt_Suc)
  also have "\<dots> = Inr (?tr1\<lparr>tdoc := boldDoc (Suc k + j) n,
                            tsteps := tsteps ?tr1 @ boldSteps (Suc k) j\<rparr>)"
    by (rule Suc.IH[OF le t1])
  also have "\<dots> = Inr (tr\<lparr>tdoc := boldDoc (k + Suc j) n, tsteps := tsteps tr @ boldSteps k (Suc j)\<rparr>)"
    by (simp add: boldSteps_def upt_conv_Cons del: upt_Suc)
  finally show ?case .
qed

lemma descendants_boldDoc:
  "descendantsR (boldDoc n n)
     = concat (map (\<lambda>i. [(xBold, 3 * int i), (TextNode ''x'' [bold], 3 * int i + 1)]) [0..<0 + n])"
proof -
  have "contentSize (boldDoc n n) = 3 * int n"
    by (simp add: contentSize_def boldDoc_def mkdoc_def sum_list_replicate)
  with descendants_boldDoc_aux[of 0 n 0] show ?thesis
    by (simp add: descendantsR_def boldDoc_def mkdoc_def)
qed

lemma removeMarks_boldDoc: "k \<le> n \<Longrightarrow> removeMarksR (boldDoc k n) = boldDoc 0 n"
proof -
  assume le: "k \<le> n"
  have x: "removeMarksR xBold = xPlain" "removeMarksR xPlain = xPlain"
    by (simp_all add: xBold_def xPlain_def par_def pT_def joinText_Cons)
  from le have "replicate k xPlain @ replicate (n - k) xPlain = replicate n xPlain"
    by (simp add: replicate_add[symmetric])
  moreover have "joinText (replicate n xPlain) = replicate n xPlain"
    by (rule joinText_nodes) simp
  ultimately show ?thesis
    by (simp add: boldDoc_def mkdoc_def docT_def x)
qed

lemma recreate_boldDoc:
  "recreateTransform refLib (boldDoc 0 n) (boldDoc n n) (opts True False False)
     = Inr \<lparr>tdoc = boldDoc n n, tsteps = boldSteps 0 n\<rparr>"
proof -
  let ?os = "opts True False False"
  let ?A = "boldDoc 0 n" and ?B = "boldDoc n n"
  have m: "optOr (complexSteps ?os) True" by (simp add: opts_def optOr_def)
  have k: "0 < MAX_ITERATIONS" by (simp add: MAX_ITERATIONS_def)
  have i: "structIters refLib (optOr (wordDiffs ?os) False) (removeMarks refLib ?B) 0
             (newTransform ?A) = Some (newTransform ?A)" by simp
  have b: "structuralBody refLib (optOr (wordDiffs ?os) False) (removeMarks refLib ?B)
             (newTransform ?A) (removeMarks refLib (tdoc (newTransform ?A))) = Inr None"
    by (simp add: structuralBody_def newTransform_def removeMarks_boldDoc findDiffStartR_def
        findDiffStartF_refl)
  note r = detailed_mode_returns[OF m structural_pass_breaks[OF i k b]]
  have t: "tdoc (newTransform ?A) = boldDoc 0 n" by (simp add: newTransform_def)
  from markLoop_boldDoc[of 0 n n, OF _ t]
  have "recreateChangeMarkSteps refLib ?B (newTransform ?A)
          = Inr \<lparr>tdoc = boldDoc n n, tsteps = boldSteps 0 n\<rparr>"
    by (simp add: recreateChangeMarkSteps_def descendants_boldDoc newTransform_def)
  with r show ?thesis by (simp add: simplified_def opts_def optOr_def)
qed

lemma length_boldSteps: "length (boldSteps k j) = j"
  by (simp add: boldSteps_def)

subsection \<open>Boundary resolution\<close>

text \<open>
  C6. When the overlap \<open>start - min(endA, endB)\<close> is positive, \<open>getReplaceStep\<close> scores
  two windows, the start moved back by the overlap and both ends moved forward by it,
  takes the first only when its score is strictly higher and the second otherwise, and
  builds the replace step of the winning window: delete up to \<open>endB\<close> in the source,
  insert the target's slice up to \<open>endA\<close>. Without overlap the window is the one the
  locator reports.
\<close>

theorem getReplaceStep_window:
  assumes "findDiffStart L toDoc fromDoc = Some s"
    and "findDiffEnd L toDoc fromDoc = Some (endA, endB)"
    and "overlap = s - min endA endB"
  shows "(overlap \<le> 0 \<longrightarrow> getReplaceStep L fromDoc toDoc = windowStep L toDoc s endA endB)
    \<and> (overlap > 0 \<longrightarrow>
          calculateBoundaryScore L fromDoc toDoc (s - overlap) endA endB = Inr scoreStart \<longrightarrow>
          calculateBoundaryScore L fromDoc toDoc s (endA + overlap) (endB + overlap) = Inr scoreEnd \<longrightarrow>
          getReplaceStep L fromDoc toDoc =
            (if scoreStart > scoreEnd then windowStep L toDoc (s - overlap) endA endB
             else windowStep L toDoc s (endA + overlap) (endB + overlap)))"
proof (intro conjI impI)
  assume "overlap \<le> 0"
  with assms(3) have "\<not> s - min endA endB > 0" by arith
  with assms show "getReplaceStep L fromDoc toDoc = windowStep L toDoc s endA endB"
    by (simp add: getReplaceStep_def windowStep_def Let_def del: diff_gt_0_iff_gt)
next
  assume "overlap > 0"
    and "calculateBoundaryScore L fromDoc toDoc (s - overlap) endA endB = Inr scoreStart"
    and "calculateBoundaryScore L fromDoc toDoc s (endA + overlap) (endB + overlap) = Inr scoreEnd"
  with assms show "getReplaceStep L fromDoc toDoc =
            (if scoreStart > scoreEnd then windowStep L toDoc (s - overlap) endA endB
             else windowStep L toDoc s (endA + overlap) (endB + overlap))"
    by (simp add: getReplaceStep_def windowStep_def Let_def del: diff_gt_0_iff_gt
        split: option.splits)
qed

theorem getReplaceStep_window_witness:
  "findDiffStart refLib (mkdoc [par [TextNode ''abab'' []]]) (mkdoc [par [TextNode ''ab'' []]]) = Some 3
   \<and> findDiffEnd refLib (mkdoc [par [TextNode ''abab'' []]]) (mkdoc [par [TextNode ''ab'' []]]) = Some (3, 1)
   \<and> getReplaceStep refLib (mkdoc [par [TextNode ''ab'' []]]) (mkdoc [par [TextNode ''abab'' []]])
       = windowStep refLib (mkdoc [par [TextNode ''abab'' []]]) 1 3 1
   \<and> getReplaceStep refLib (mkdoc [par [TextNode ''ab'' []]]) (mkdoc [par [TextNode ''abab'' []]])
       = Inr (Some (ReplaceStep 1 1 (Slice [TextNode ''ab'' []] 0 0)))"
proof -
  let ?A = "mkdoc [par [TextNode ''ab'' []]]" and ?B = "mkdoc [par [TextNode ''abab'' []]]"
  have h1: "findDiffStart refLib ?B ?A = Some 3" by code_simp
  have h2: "findDiffEnd refLib ?B ?A = Some (3, 1)" by code_simp
  have s1: "calculateBoundaryScore refLib ?A ?B (3 - 2) 3 1 = Inr (4/5)" by code_simp
  have s2: "calculateBoundaryScore refLib ?A ?B 3 (3 + 2) (1 + 2) = Inr (-6/5)" by code_simp
  have w: "windowStep refLib ?B 1 3 1 = Inr (Some (ReplaceStep 1 1 (Slice [TextNode ''ab'' []] 0 0)))"
    by code_simp
  from getReplaceStep_window[OF h1 h2, where overlap = 2 and scoreStart = "4/5" and scoreEnd = "-6/5"] s1 s2
  have "getReplaceStep refLib ?A ?B = windowStep refLib ?B 1 3 1" by simp
  with h1 h2 w show ?thesis by simp
qed
subsection \<open>Classification of a divergence\<close>

text \<open>
  C5. A divergence is labelled text exactly when the nodes at the start position of both
  documents are text nodes of identical type, attributes and annotation list, their
  parents are at equal depth with equal type and equal markup, and the two strings share
  a non-empty common prefix or one of them is empty. A divergence that meets neither the
  text nor the markup condition is labelled structural, and only such a divergence is.
\<close>

theorem classifyDiff_labels:
  assumes "classifyDiff L fromDoc toDoc s ef et = Inr d"
  shows "(dtype d = TextDiff \<longleftrightarrow> textCondition L fromDoc toDoc s)
    \<and> (dtype d = StructuralDiff \<longleftrightarrow>
          \<not> textCondition L fromDoc toDoc s \<and> \<not> markupCondition L fromDoc toDoc s)"
proof -
  from assms obtain f t tns where
    n: "nodeAt L fromDoc s = Inr f" "nodeAt L toDoc s = Inr t"
    and r: "classifyRest L fromDoc toDoc s ef et f t tns = Inr d"
    by (auto simp: classifyDiff_def split: sum.splits option.splits if_splits)
  from classifyRest_dtype[OF r n] show ?thesis .
qed

theorem classifyDiff_labels_witness:
  "classifyDiff refLib (mkdoc [par [TextNode ''Hello world'' []]])
      (mkdoc [par [TextNode ''Hello there'' []]]) 7 12 12
     = Inr (mkDiff TextDiff 7 12 12 (Some (TextNode ''Hello world'' []))
              (Some (TextNode ''Hello there'' [])) 1)
   \<and> textCondition refLib (mkdoc [par [TextNode ''Hello world'' []]])
        (mkdoc [par [TextNode ''Hello there'' []]]) 7"
proof -
  let ?A = "mkdoc [par [TextNode ''Hello world'' []]]"
  let ?B = "mkdoc [par [TextNode ''Hello there'' []]]"
  let ?d = "mkDiff TextDiff 7 12 12 (Some (TextNode ''Hello world'' []))
              (Some (TextNode ''Hello there'' [])) 1"
  have c: "classifyDiff refLib ?A ?B 7 12 12 = Inr ?d" by code_simp
  have "dtype ?d = TextDiff" by (simp add: mkDiff_def)
  with classifyDiff_labels[OF c] c show ?thesis by simp
qed
subsection \<open>Non-convergence and step failure\<close>

text \<open>
  C7. Neither loop runs more than 1000 passes. A reconstruction whose loop runs all 1000 passes ends with the max-iterations error
  of its mode, in both modes. A loop left earlier never raises that error: when the pass
  finds no difference the loop returns its Transform, and an error thrown in a pass is
  the error of the reconstruction, unchanged. In particular a replace step that the
  engine rejects ends the reconstruction with the error
  \<open>ReplaceStep failed: ...\<close> carrying the engine's reason, which is
  neither of the two max-iterations errors.
\<close>

theorem non_convergence_error:
  "(optOr (complexSteps os) True \<longrightarrow>
      (structIters L (optOr (wordDiffs os) False) (removeMarks L toDoc) 1000
           (newTransform fromDoc) = Some tr
         \<longrightarrow> recreateTransform L fromDoc toDoc os
               = Inl (Error ''Max iterations reached in recreateStructuralSteps''))
    \<and> (k < 1000 \<and> structIters L (optOr (wordDiffs os) False) (removeMarks L toDoc) k
           (newTransform fromDoc) = Some tr
         \<longrightarrow> (\<forall>e. structuralBody L (optOr (wordDiffs os) False) (removeMarks L toDoc) tr
                      (removeMarks L (tdoc tr)) = Inl e
                  \<longrightarrow> recreateTransform L fromDoc toDoc os = Inl e)
           \<and> (structuralBody L (optOr (wordDiffs os) False) (removeMarks L toDoc) tr
                      (removeMarks L (tdoc tr)) = Inr None
                  \<longrightarrow> recreateStructuralSteps L (optOr (wordDiffs os) False) fromDoc toDoc
                          (newTransform fromDoc) = Inr tr
                      \<and> recreateTransform L fromDoc toDoc os
                          = (case recreateChangeMarkSteps L toDoc tr of
                               Inl e \<Rightarrow> Inl e
                             | Inr tr' \<Rightarrow> Inr (simplified L os tr')))
           \<and> (findDiffStart L (removeMarks L toDoc) (removeMarks L (tdoc tr)) = Some s
                \<and> findDiffEnd L (removeMarks L toDoc) (removeMarks L (tdoc tr)) = Some (eT, eF)
                \<and> classifyDiff L (removeMarks L (tdoc tr)) (removeMarks L toDoc) s eF eT = Inr d
                \<and> dtype d = StructuralDiff
                \<and> getReplaceStep L (removeMarks L (tdoc tr)) (removeMarks L toDoc) = Inr (Some st)
                \<and> stepApply L st (tdoc tr) = Failed failed
                  \<longrightarrow> recreateTransform L fromDoc toDoc os
                        = Inl (Error (''ReplaceStep failed: '' @ failed)))))
   \<and> (\<not> optOr (complexSteps os) True \<longrightarrow>
      (allIters L toDoc 1000 (newTransform fromDoc) = Some tr
         \<longrightarrow> recreateTransform L fromDoc toDoc os
               = Inl (Error ''Max iterations reached in recreateAllSteps''))
    \<and> (k < 1000 \<and> allIters L toDoc k (newTransform fromDoc) = Some tr
         \<longrightarrow> (\<forall>e. allBody L toDoc tr (tdoc tr) = Inl e
                  \<longrightarrow> recreateTransform L fromDoc toDoc os = Inl e)
           \<and> (allBody L toDoc tr (tdoc tr) = Inr None
                  \<longrightarrow> recreateAllSteps L fromDoc toDoc (newTransform fromDoc) = Inr tr
                      \<and> recreateTransform L fromDoc toDoc os = Inr (simplified L os tr))
           \<and> (getReplaceStep L (tdoc tr) toDoc = Inr (Some st)
                \<and> stepApply L st (tdoc tr) = Failed failed
                  \<longrightarrow> recreateTransform L fromDoc toDoc os
                        = Inl (Error (''ReplaceStep failed: '' @ failed)))))
   \<and> Error (''ReplaceStep failed: '' @ failed)
        \<noteq> Error ''Max iterations reached in recreateStructuralSteps''
   \<and> Error (''ReplaceStep failed: '' @ failed)
        \<noteq> Error ''Max iterations reached in recreateAllSteps''
   \<and> fst (structuralLoop L wd toNM tr0 cur 0) \<le> 1000
   \<and> fst (allLoop L toDoc tr0 cur 0) \<le> 1000"
proof -
  let ?wd = "optOr (wordDiffs os) False"
  let ?t = "removeMarks L toDoc"
  have m: "MAX_ITERATIONS = 1000" by (simp add: MAX_ITERATIONS_def)
  have t0: "tdoc (newTransform fromDoc) = fromDoc" by (simp add: newTransform_def)
  have s_cap: "recreateTransform L fromDoc toDoc os
                 = Inl (Error ''Max iterations reached in recreateStructuralSteps'')"
    if c: "optOr (complexSteps os) True"
      and i: "structIters L ?wd ?t 1000 (newTransform fromDoc) = Some tr"
  proof -
    from i have "structIters L ?wd ?t MAX_ITERATIONS (newTransform fromDoc) = Some tr"
      by (simp only: m)
    from recreate_error_init[OF c structural_cap_error[OF t0 this]] show ?thesis .
  qed
  have s_throw: "recreateTransform L fromDoc toDoc os = Inl e"
    if c: "optOr (complexSteps os) True" and k: "k < 1000"
      and i: "structIters L ?wd ?t k (newTransform fromDoc) = Some tr"
      and b: "structuralBody L ?wd ?t tr (removeMarks L (tdoc tr)) = Inl e" for e
  proof -
    from k have k': "k < MAX_ITERATIONS" by (simp only: m)
    from recreate_error_init[OF c structural_pass_throws[OF i k' b]] show ?thesis .
  qed
  have s_break: "recreateStructuralSteps L ?wd fromDoc toDoc (newTransform fromDoc) = Inr tr
      \<and> recreateTransform L fromDoc toDoc os
          = (case recreateChangeMarkSteps L toDoc tr of
               Inl e \<Rightarrow> Inl e | Inr tr' \<Rightarrow> Inr (simplified L os tr'))"
    if c: "optOr (complexSteps os) True" and k: "k < 1000"
      and i: "structIters L ?wd ?t k (newTransform fromDoc) = Some tr"
      and b: "structuralBody L ?wd ?t tr (removeMarks L (tdoc tr)) = Inr None"
  proof -
    from k have k': "k < MAX_ITERATIONS" by (simp only: m)
    note r = structural_pass_breaks[OF i k' b]
    from r detailed_mode_returns[OF c r] show ?thesis by simp
  qed
  have s_fail: "recreateTransform L fromDoc toDoc os
                  = Inl (Error (''ReplaceStep failed: '' @ failed))"
    if c: "optOr (complexSteps os) True" and k: "k < 1000"
      and i: "structIters L ?wd ?t k (newTransform fromDoc) = Some tr"
      and f: "findDiffStart L ?t (removeMarks L (tdoc tr)) = Some s"
             "findDiffEnd L ?t (removeMarks L (tdoc tr)) = Some (eT, eF)"
             "classifyDiff L (removeMarks L (tdoc tr)) ?t s eF eT = Inr d"
             "dtype d = StructuralDiff"
      and g: "getReplaceStep L (removeMarks L (tdoc tr)) ?t = Inr (Some st)"
      and a: "stepApply L st (tdoc tr) = Failed failed"
  proof -
    from structural_body_structural[OF f, of ?wd tr] g a
    have "structuralBody L ?wd ?t tr (removeMarks L (tdoc tr))
            = Inl (Error (''ReplaceStep failed: '' @ failed))" by simp
    from s_throw[OF c k i this] show ?thesis .
  qed
  have a_cap: "recreateTransform L fromDoc toDoc os
                 = Inl (Error ''Max iterations reached in recreateAllSteps'')"
    if c: "\<not> optOr (complexSteps os) True"
      and i: "allIters L toDoc 1000 (newTransform fromDoc) = Some tr"
  proof -
    from i have "allIters L toDoc MAX_ITERATIONS (newTransform fromDoc) = Some tr"
      by (simp only: m)
    from simple_mode_error[OF c all_cap_error[OF t0 this]] show ?thesis .
  qed
  have a_throw: "recreateTransform L fromDoc toDoc os = Inl e"
    if c: "\<not> optOr (complexSteps os) True" and k: "k < 1000"
      and i: "allIters L toDoc k (newTransform fromDoc) = Some tr"
      and b: "allBody L toDoc tr (tdoc tr) = Inl e" for e
  proof -
    from k have k': "k < MAX_ITERATIONS" by (simp only: m)
    from simple_mode_error[OF c all_pass_throws[OF i k' b]] show ?thesis .
  qed
  have a_break: "recreateAllSteps L fromDoc toDoc (newTransform fromDoc) = Inr tr
      \<and> recreateTransform L fromDoc toDoc os = Inr (simplified L os tr)"
    if c: "\<not> optOr (complexSteps os) True" and k: "k < 1000"
      and i: "allIters L toDoc k (newTransform fromDoc) = Some tr"
      and b: "allBody L toDoc tr (tdoc tr) = Inr None"
  proof -
    from k have k': "k < MAX_ITERATIONS" by (simp only: m)
    note r = all_pass_breaks[OF i k' b]
    from r simple_mode_returns[OF c r] show ?thesis by simp
  qed
  have a_fail: "recreateTransform L fromDoc toDoc os
                  = Inl (Error (''ReplaceStep failed: '' @ failed))"
    if c: "\<not> optOr (complexSteps os) True" and k: "k < 1000"
      and i: "allIters L toDoc k (newTransform fromDoc) = Some tr"
      and g: "getReplaceStep L (tdoc tr) toDoc = Inr (Some st)"
      and a: "stepApply L st (tdoc tr) = Failed failed"
  proof -
    from g a have "allBody L toDoc tr (tdoc tr)
            = Inl (Error (''ReplaceStep failed: '' @ failed))"
      by (simp add: allBody_def maybeStep_def)
    from a_throw[OF c k i this] show ?thesis .
  qed
  have ne: "Error (''ReplaceStep failed: '' @ failed)
              \<noteq> Error ''Max iterations reached in recreateStructuralSteps''"
    "Error (''ReplaceStep failed: '' @ failed)
              \<noteq> Error ''Max iterations reached in recreateAllSteps''"
    by simp_all
  have bd: "fst (structuralLoop L wd toNM tr0 cur 0) \<le> 1000"
    "fst (allLoop L toDoc tr0 cur 0) \<le> 1000"
    using structuralLoop_bound[of 0 L wd toNM tr0 cur] allLoop_bound[of 0 L toDoc tr0 cur]
    by (simp_all add: m)
  show ?thesis
    using s_cap s_throw s_break s_fail a_cap a_throw a_break a_fail ne bd by blast
qed

theorem non_convergence_error_witness:
  "recreateTransform refLib (markupDoc 0 1000) (markupDoc 1000 1000) (opts True False True)
     = Inl (Error ''Max iterations reached in recreateStructuralSteps'')
   \<and> recreateTransform rejectingLib docAB docABC (opts True False True)
     = Inl (Error ''ReplaceStep failed: Invalid content'')
   \<and> recreateStructuralSteps refLib False docHelloWorld docHelloThere (newTransform docHelloWorld)
     = Inr \<lparr>tdoc = docHelloThere,
            tsteps = [ReplaceStep 7 9 (Slice [TextNode ''the'' []] 0 0),
                      ReplaceStep 11 13 (Slice [TextNode ''e'' []] 0 0)]\<rparr>
   \<and> recreateTransform stalledLib docAB docABC (opts False False True)
     = Inl (Error ''Max iterations reached in recreateAllSteps'')
   \<and> recreateTransform rejectingLib docAB docABC (opts False False True)
     = Inl (Error ''ReplaceStep failed: Invalid content'')
   \<and> recreateAllSteps refLib docAB docABC (newTransform docAB)
     = Inr \<lparr>tdoc = docABC,
            tsteps = [ReplaceStep 4 4 (Slice [heading [TextNode ''c'' []]] 0 0)]\<rparr>"
proof -
  let ?A = "markupDoc 0 1000" and ?B = "markupDoc 1000 1000"
  let ?os = "opts True False True" and ?os' = "opts False False True"
  let ?st = "ReplaceStep 4 4 (Slice [heading [TextNode ''c'' []]] 0 0)"
  let ?trH = "\<lparr>tdoc = docHelloThere,
            tsteps = [ReplaceStep 7 9 (Slice [TextNode ''the'' []] 0 0),
                      ReplaceStep 11 13 (Slice [TextNode ''e'' []] 0 0)]\<rparr>"
  let ?trC = "\<lparr>tdoc = docABC, tsteps = [?st]\<rparr>"
  have cT: "optOr (complexSteps ?os) True" and cF: "\<not> optOr (complexSteps ?os') True"
    and wd: "optOr (wordDiffs ?os) False = False"
    by (simp_all add: opts_def optOr_def)
  have k0: "(0::nat) < 1000" and k1: "(1::nat) < 1000" by simp_all
  \<comment> \<open>detailed mode, all 1000 passes\<close>
  have t: "tdoc (newTransform ?A) = ?A" by (simp add: newTransform_def)
  from iters_markupDoc[of 0 1000 1000, OF _ t] obtain tr1 where
    "structIters refLib False ?B 1000 (newTransform ?A) = Some tr1" by auto
  then have i1: "structIters refLib (optOr (wordDiffs ?os) False) (removeMarks refLib ?B) 1000
                   (newTransform ?A) = Some tr1"
    by (simp add: wd)
  note c1 = non_convergence_error[where os = ?os and L = refLib and fromDoc = ?A and toDoc = ?B
      and tr = tr1, THEN conjunct1, THEN mp, OF cT, THEN conjunct1, THEN mp, OF i1]
  \<comment> \<open>detailed mode, the engine rejects the step of the first pass\<close>
  have i2: "structIters rejectingLib (optOr (wordDiffs ?os) False) (removeMarks rejectingLib docABC) 0
              (newTransform docAB) = Some (newTransform docAB)" by simp
  have f2: "findDiffStart rejectingLib (removeMarks rejectingLib docABC)
              (removeMarks rejectingLib (tdoc (newTransform docAB))) = Some 4
          \<and> findDiffEnd rejectingLib (removeMarks rejectingLib docABC)
              (removeMarks rejectingLib (tdoc (newTransform docAB))) = Some (7, 4)
          \<and> classifyDiff rejectingLib (removeMarks rejectingLib (tdoc (newTransform docAB)))
              (removeMarks rejectingLib docABC) 4 4 7
              = Inr \<lparr>dtype = StructuralDiff, start = 4, endFrom = 4, endTo = 7, fromNode = None,
                     toNode = Some (heading [TextNode ''c'' []]), textNodeStart = 4\<rparr>
          \<and> dtype \<lparr>dtype = StructuralDiff, start = 4, endFrom = 4, endTo = 7, fromNode = None,
                     toNode = Some (heading [TextNode ''c'' []]), textNodeStart = 4\<rparr> = StructuralDiff
          \<and> getReplaceStep rejectingLib (removeMarks rejectingLib (tdoc (newTransform docAB)))
              (removeMarks rejectingLib docABC) = Inr (Some ?st)
          \<and> stepApply rejectingLib ?st (tdoc (newTransform docAB)) = Failed ''Invalid content''"
    by code_simp
  note c2 = non_convergence_error[where os = ?os and L = rejectingLib and fromDoc = docAB
      and toDoc = docABC and tr = "newTransform docAB" and k = 0,
      THEN conjunct1, THEN mp, OF cT, THEN conjunct2, THEN mp, OF conjI[OF k0 i2],
      THEN conjunct2, THEN conjunct2, THEN mp, OF f2]
  \<comment> \<open>detailed mode, the loop is left after one pass\<close>
  have i3: "structIters refLib (optOr (wordDiffs ?os) False) (removeMarks refLib docHelloThere) 1
              (newTransform docHelloWorld) = Some ?trH"
    by code_simp
  have b3: "structuralBody refLib (optOr (wordDiffs ?os) False) (removeMarks refLib docHelloThere)
              ?trH (removeMarks refLib (tdoc ?trH)) = Inr None"
    by code_simp
  note c3 = non_convergence_error[where os = ?os and L = refLib and fromDoc = docHelloWorld
      and toDoc = docHelloThere and tr = ?trH and k = 1,
      THEN conjunct1, THEN mp, OF cT, THEN conjunct2, THEN mp, OF conjI[OF k1 i3],
      THEN conjunct2, THEN conjunct1, THEN mp, OF b3, THEN conjunct1]
  \<comment> \<open>simple mode, all 1000 passes\<close>
  have g: "getReplaceStep refLib docAB docABC = Inr (Some ?st)" by code_simp
  have t4: "tdoc (newTransform docAB) = docAB" by (simp add: newTransform_def)
  from stalled_iters[OF g t4, of 1000] obtain tr4 where
    i4: "allIters stalledLib docABC 1000 (newTransform docAB) = Some tr4" by blast
  note c4 = non_convergence_error[where os = ?os' and L = stalledLib and fromDoc = docAB
      and toDoc = docABC and tr = tr4,
      THEN conjunct2, THEN conjunct1, THEN mp, OF cF, THEN conjunct1, THEN mp, OF i4]
  \<comment> \<open>simple mode, the engine rejects the step of the first pass\<close>
  have i5: "allIters rejectingLib docABC 0 (newTransform docAB) = Some (newTransform docAB)"
    by simp
  have f5: "getReplaceStep rejectingLib (tdoc (newTransform docAB)) docABC = Inr (Some ?st)
          \<and> stepApply rejectingLib ?st (tdoc (newTransform docAB)) = Failed ''Invalid content''"
    by code_simp
  note c5 = non_convergence_error[where os = ?os' and L = rejectingLib and fromDoc = docAB
      and toDoc = docABC and tr = "newTransform docAB" and k = 0,
      THEN conjunct2, THEN conjunct1, THEN mp, OF cF, THEN conjunct2, THEN mp, OF conjI[OF k0 i5],
      THEN conjunct2, THEN conjunct2, THEN mp, OF f5]
  \<comment> \<open>simple mode, the loop is left after one pass\<close>
  have i6: "allIters refLib docABC 1 (newTransform docAB) = Some ?trC" by code_simp
  have b6: "allBody refLib docABC ?trC (tdoc ?trC) = Inr None" by code_simp
  note c6 = non_convergence_error[where os = ?os' and L = refLib and fromDoc = docAB
      and toDoc = docABC and tr = ?trC and k = 1,
      THEN conjunct2, THEN conjunct1, THEN mp, OF cF, THEN conjunct2, THEN mp, OF conjI[OF k1 i6],
      THEN conjunct2, THEN conjunct1, THEN mp, OF b6, THEN conjunct1]
  have e: "''ReplaceStep failed: '' @ ''Invalid content'' = ''ReplaceStep failed: Invalid content''"
    by simp
  from c3 have c3': "recreateStructuralSteps refLib False docHelloWorld docHelloThere
      (newTransform docHelloWorld) = Inr ?trH" by (simp only: wd)
  show ?thesis
    by (intro conjI) (rule c1, rule c2[unfolded e], rule c3', rule c4, rule c5[unfolded e], rule c6)
qed

subsection \<open>The cap is one thousand\<close>

text \<open>
  C10 (amended). The cap is exactly 1000, it bounds the passes of a loop, not the steps
  applied, and the loop condition is tested before convergence is tested again. A loop
  body is entered at most 1000 times: the counter is at most 1000 when the loop is left,
  and below 1000 when a body throws. A reconstruction whose loop runs 1000 passes ends
  with the max-iterations error of its mode, whether or not the document equals the
  target after the 1000th pass; a loop that finds no difference after fewer than 1000
  passes returns its Transform. In simple mode every pass applies exactly one step, so
  there 1000 passes are 1000 applied steps. In detailed mode passes and applied steps
  differ: a text pass may apply several steps, and the steps of the annotation phase are
  applied outside the loop.
\<close>

theorem iteration_cap:
  "MAX_ITERATIONS = 1000
   \<and> fst (structuralLoop L wd toNM tr cur 0) \<le> 1000
   \<and> (\<forall>e. snd (structuralLoop L wd toNM tr cur 0) = Inl e
          \<longrightarrow> fst (structuralLoop L wd toNM tr cur 0) < 1000)
   \<and> fst (allLoop L toDoc tr cur 0) \<le> 1000
   \<and> (\<forall>e. snd (allLoop L toDoc tr cur 0) = Inl e \<longrightarrow> fst (allLoop L toDoc tr cur 0) < 1000)
   \<and> (tdoc tr = fromDoc \<longrightarrow> structIters L wd (removeMarks L toDoc) 1000 tr = Some tr'
        \<longrightarrow> recreateStructuralSteps L wd fromDoc toDoc tr
              = Inl (Error ''Max iterations reached in recreateStructuralSteps''))
   \<and> (tdoc tr = fromDoc \<longrightarrow> allIters L toDoc 1000 tr = Some tr'
        \<longrightarrow> recreateAllSteps L fromDoc toDoc tr
              = Inl (Error ''Max iterations reached in recreateAllSteps''))
   \<and> (optOr (complexSteps os) True
        \<longrightarrow> structIters L (optOr (wordDiffs os) False) (removeMarks L toDoc) 1000
              (newTransform fromDoc) = Some tr'
        \<longrightarrow> recreateTransform L fromDoc toDoc os
              = Inl (Error ''Max iterations reached in recreateStructuralSteps''))
   \<and> (\<not> optOr (complexSteps os) True
        \<longrightarrow> allIters L toDoc 1000 (newTransform fromDoc) = Some tr'
        \<longrightarrow> length (tsteps tr') = 1000
            \<and> recreateTransform L fromDoc toDoc os
              = Inl (Error ''Max iterations reached in recreateAllSteps''))
   \<and> (k < 1000 \<longrightarrow> structIters L wd (removeMarks L toDoc) k (newTransform fromDoc) = Some tr'
        \<longrightarrow> structuralBody L wd (removeMarks L toDoc) tr' (removeMarks L (tdoc tr')) = Inr None
        \<longrightarrow> recreateStructuralSteps L wd fromDoc toDoc (newTransform fromDoc) = Inr tr')
   \<and> (k < 1000 \<longrightarrow> allIters L toDoc k (newTransform fromDoc) = Some tr'
        \<longrightarrow> allBody L toDoc tr' (tdoc tr') = Inr None
        \<longrightarrow> length (tsteps tr') = k
            \<and> recreateAllSteps L fromDoc toDoc (newTransform fromDoc) = Inr tr')
   \<and> (allIters L toDoc k tr = Some tr' \<longrightarrow> length (tsteps tr') = length (tsteps tr) + k)"
proof -
  have m: "MAX_ITERATIONS = 1000" by (simp add: MAX_ITERATIONS_def)
  have t0: "tdoc (newTransform fromDoc) = fromDoc" "tsteps (newTransform fromDoc) = []"
    by (simp_all add: newTransform_def)
  have p1: "fst (structuralLoop L wd toNM tr cur 0) \<le> 1000
      \<and> (\<forall>e. snd (structuralLoop L wd toNM tr cur 0) = Inl e
             \<longrightarrow> fst (structuralLoop L wd toNM tr cur 0) < 1000)"
    using structuralLoop_bound[of 0 L wd toNM tr cur] unfolding m by simp
  have p2: "fst (allLoop L toDoc tr cur 0) \<le> 1000
      \<and> (\<forall>e. snd (allLoop L toDoc tr cur 0) = Inl e \<longrightarrow> fst (allLoop L toDoc tr cur 0) < 1000)"
    using allLoop_bound[of 0 L toDoc tr cur] unfolding m by simp
  have p3: "recreateStructuralSteps L wd fromDoc toDoc tr
              = Inl (Error ''Max iterations reached in recreateStructuralSteps'')"
    if "tdoc tr = fromDoc" "structIters L wd (removeMarks L toDoc) 1000 tr = Some tr'"
    using structural_cap_error[of tr fromDoc L wd toDoc tr'] that unfolding m by simp
  have p4: "recreateAllSteps L fromDoc toDoc tr
              = Inl (Error ''Max iterations reached in recreateAllSteps'')"
    if "tdoc tr = fromDoc" "allIters L toDoc 1000 tr = Some tr'"
    using all_cap_error[of tr fromDoc L toDoc tr'] that unfolding m by simp
  have p5: "recreateTransform L fromDoc toDoc os
              = Inl (Error ''Max iterations reached in recreateStructuralSteps'')"
    if c: "optOr (complexSteps os) True"
      and i: "structIters L (optOr (wordDiffs os) False) (removeMarks L toDoc) 1000
               (newTransform fromDoc) = Some tr'"
  proof -
    from i have "structIters L (optOr (wordDiffs os) False) (removeMarks L toDoc) MAX_ITERATIONS
               (newTransform fromDoc) = Some tr'" by (simp only: m)
    from recreate_error_init[OF c structural_cap_error[OF t0(1) this]] show ?thesis .
  qed
  have p6: "length (tsteps tr') = 1000
      \<and> recreateTransform L fromDoc toDoc os
          = Inl (Error ''Max iterations reached in recreateAllSteps'')"
    if c: "\<not> optOr (complexSteps os) True"
      and i: "allIters L toDoc 1000 (newTransform fromDoc) = Some tr'"
  proof -
    from i have "allIters L toDoc MAX_ITERATIONS (newTransform fromDoc) = Some tr'"
      by (simp only: m)
    from simple_mode_error[OF c all_cap_error[OF t0(1) this]] allIters_steps[OF i] t0(2)
    show ?thesis by simp
  qed
  have p7: "recreateStructuralSteps L wd fromDoc toDoc (newTransform fromDoc) = Inr tr'"
    if k: "k < 1000"
      and i: "structIters L wd (removeMarks L toDoc) k (newTransform fromDoc) = Some tr'"
      and b: "structuralBody L wd (removeMarks L toDoc) tr' (removeMarks L (tdoc tr')) = Inr None"
  proof -
    from k have "k < MAX_ITERATIONS" by (simp only: m)
    from structural_pass_breaks[OF i this b] show ?thesis .
  qed
  have p8: "length (tsteps tr') = k
      \<and> recreateAllSteps L fromDoc toDoc (newTransform fromDoc) = Inr tr'"
    if k: "k < 1000"
      and i: "allIters L toDoc k (newTransform fromDoc) = Some tr'"
      and b: "allBody L toDoc tr' (tdoc tr') = Inr None"
  proof -
    from k have "k < MAX_ITERATIONS" by (simp only: m)
    from all_pass_breaks[OF i this b] allIters_steps[OF i] t0(2) show ?thesis by simp
  qed
  have p9: "length (tsteps tr') = length (tsteps tr) + k" if "allIters L toDoc k tr = Some tr'"
    using allIters_steps[OF that] .
  from m p1 p2 p3 p4 p5 p6 p7 p8 p9 show ?thesis by blast
qed

theorem iteration_cap_witness:
  "\<exists>tr'. structIters refLib False (markupDoc 1000 1000) 1000 (newTransform (markupDoc 0 1000)) = Some tr'
      \<and> tdoc tr' = markupDoc 1000 1000
      \<and> findDiffStart refLib (markupDoc 1000 1000) (removeMarks refLib (tdoc tr')) = None
      \<and> recreateStructuralSteps refLib False (markupDoc 0 1000) (markupDoc 1000 1000)
           (newTransform (markupDoc 0 1000))
         = Inl (Error ''Max iterations reached in recreateStructuralSteps'')
      \<and> recreateTransform refLib (markupDoc 0 1000) (markupDoc 1000 1000) (opts True False True)
         = Inl (Error ''Max iterations reached in recreateStructuralSteps'')
      \<and> recreateAllSteps stalledLib docAB docABC (newTransform docAB)
         = Inl (Error ''Max iterations reached in recreateAllSteps'')
      \<and> recreateTransform stalledLib docAB docABC (opts False False True)
         = Inl (Error ''Max iterations reached in recreateAllSteps'')
      \<and> recreateStructuralSteps refLib False docHelloWorld docHelloThere (newTransform docHelloWorld)
         = Inr \<lparr>tdoc = docHelloThere,
                tsteps = [ReplaceStep 7 9 (Slice [TextNode ''the'' []] 0 0),
                          ReplaceStep 11 13 (Slice [TextNode ''e'' []] 0 0)]\<rparr>
      \<and> recreateAllSteps refLib docAB docABC (newTransform docAB)
         = Inr \<lparr>tdoc = docABC,
                tsteps = [ReplaceStep 4 4 (Slice [heading [TextNode ''c'' []]] 0 0)]\<rparr>"
proof -
  let ?A = "markupDoc 0 1000" and ?B = "markupDoc 1000 1000"
  let ?os = "opts True False True" and ?os' = "opts False False True"
  let ?st = "ReplaceStep 4 4 (Slice [heading [TextNode ''c'' []]] 0 0)"
  let ?trH = "\<lparr>tdoc = docHelloThere,
            tsteps = [ReplaceStep 7 9 (Slice [TextNode ''the'' []] 0 0),
                      ReplaceStep 11 13 (Slice [TextNode ''e'' []] 0 0)]\<rparr>"
  let ?trC = "\<lparr>tdoc = docABC, tsteps = [?st]\<rparr>"
  have cT: "optOr (complexSteps ?os) True" and cF: "\<not> optOr (complexSteps ?os') True"
    and wd: "optOr (wordDiffs ?os) False = False"
    by (simp_all add: opts_def optOr_def)
  have k1: "(1::nat) < 1000" by simp
  have t: "tdoc (newTransform ?A) = ?A" by (simp add: newTransform_def)
  from iters_markupDoc[of 0 1000 1000, OF _ t] obtain tr1 where
    i1: "structIters refLib False ?B 1000 (newTransform ?A) = Some tr1"
    and d1: "tdoc tr1 = ?B" by auto
  have f: "findDiffStart refLib ?B (removeMarks refLib (tdoc tr1)) = None"
    using d1 by (simp add: findDiffStart_markupDoc_done)
  have g: "getReplaceStep refLib docAB docABC = Inr (Some ?st)"
    by code_simp
  have t2: "tdoc (newTransform docAB) = docAB" by (simp add: newTransform_def)
  from stalled_iters[OF g t2, of 1000] obtain tr2 where
    i2: "allIters stalledLib docABC 1000 (newTransform docAB) = Some tr2" by blast
  have i1': "structIters refLib False (removeMarks refLib ?B) 1000 (newTransform ?A) = Some tr1"
    using i1 by simp
  have i1'': "structIters refLib (optOr (wordDiffs ?os) False) (removeMarks refLib ?B) 1000
                (newTransform ?A) = Some tr1"
    using i1 by (simp add: wd)
  have c1: "recreateStructuralSteps refLib False ?A ?B (newTransform ?A)
         = Inl (Error ''Max iterations reached in recreateStructuralSteps'')"
    by (rule iteration_cap[where L = refLib and wd = False and tr = "newTransform ?A"
          and fromDoc = ?A and toDoc = ?B and tr' = tr1,
          THEN conjunct2, THEN conjunct2, THEN conjunct2, THEN conjunct2, THEN conjunct2,
          THEN conjunct1, rule_format, OF t i1'])
  have c2: "recreateAllSteps stalledLib docAB docABC (newTransform docAB)
         = Inl (Error ''Max iterations reached in recreateAllSteps'')"
    by (rule iteration_cap[where L = stalledLib and tr = "newTransform docAB"
          and fromDoc = docAB and toDoc = docABC and tr' = tr2,
          THEN conjunct2, THEN conjunct2, THEN conjunct2, THEN conjunct2, THEN conjunct2,
          THEN conjunct2, THEN conjunct1, rule_format, OF t2 i2])
  have c3: "recreateTransform refLib ?A ?B ?os
         = Inl (Error ''Max iterations reached in recreateStructuralSteps'')"
    by (rule iteration_cap[where L = refLib and os = ?os
          and fromDoc = ?A and toDoc = ?B and tr' = tr1,
          THEN conjunct2, THEN conjunct2, THEN conjunct2, THEN conjunct2, THEN conjunct2,
          THEN conjunct2, THEN conjunct2, THEN conjunct1, rule_format, OF cT i1''])
  have c4: "recreateTransform stalledLib docAB docABC ?os'
         = Inl (Error ''Max iterations reached in recreateAllSteps'')"
    by (rule iteration_cap[where L = stalledLib and os = ?os'
          and fromDoc = docAB and toDoc = docABC and tr' = tr2,
          THEN conjunct2, THEN conjunct2, THEN conjunct2, THEN conjunct2, THEN conjunct2,
          THEN conjunct2, THEN conjunct2, THEN conjunct2, THEN conjunct1, rule_format,
          OF cF i2, THEN conjunct2])
  have i5: "structIters refLib False (removeMarks refLib docHelloThere) 1
              (newTransform docHelloWorld) = Some ?trH"
    by code_simp
  have b5: "structuralBody refLib False (removeMarks refLib docHelloThere)
              ?trH (removeMarks refLib (tdoc ?trH)) = Inr None"
    by code_simp
  have c5: "recreateStructuralSteps refLib False docHelloWorld docHelloThere
              (newTransform docHelloWorld) = Inr ?trH"
    by (rule iteration_cap[where L = refLib and wd = False and k = 1
          and fromDoc = docHelloWorld and toDoc = docHelloThere and tr' = ?trH,
          THEN conjunct2, THEN conjunct2, THEN conjunct2, THEN conjunct2, THEN conjunct2,
          THEN conjunct2, THEN conjunct2, THEN conjunct2, THEN conjunct2, THEN conjunct1,
          rule_format, OF k1 i5 b5])
  have i6: "allIters refLib docABC 1 (newTransform docAB) = Some ?trC" by code_simp
  have b6: "allBody refLib docABC ?trC (tdoc ?trC) = Inr None" by code_simp
  have c6: "recreateAllSteps refLib docAB docABC (newTransform docAB) = Inr ?trC"
    by (rule iteration_cap[where L = refLib and k = 1
          and fromDoc = docAB and toDoc = docABC and tr' = ?trC,
          THEN conjunct2, THEN conjunct2, THEN conjunct2, THEN conjunct2, THEN conjunct2,
          THEN conjunct2, THEN conjunct2, THEN conjunct2, THEN conjunct2, THEN conjunct2,
          THEN conjunct1, rule_format, OF k1 i6 b6, THEN conjunct2])
  show ?thesis
    by (intro exI[of _ tr1] conjI) (rule i1 d1 f c1 c3 c2 c4 c5 c6)+
qed

theorem thousand_applied_steps_counterexample:
  "recreateTransform refLib (boldDoc 0 1000) (boldDoc 1000 1000) (opts True False False)
     = Inr \<lparr>tdoc = boldDoc 1000 1000, tsteps = boldSteps 0 1000\<rparr>
   \<and> length (boldSteps 0 1000) = 1000"
  using recreate_boldDoc[of 1000] length_boldSteps[of 0 1000] by (intro conjI)

subsection \<open>The structural editor\<close>

text \<open>
  C2 (amended). In detailed mode the structural loop compares the annotation-stripped
  copy of the current document with the annotation-stripped copy of the target, and
  whenever a pass classifies the divergence as structural, the replace step is computed
  by the divergence locator and the boundary resolver on these two stripped copies, not
  on the full documents. Such a pass always has a step to apply, and it is applied to the
  real current document: if applying it throws, the reconstruction ends with that error;
  if the engine rejects it, with the error \<open>ReplaceStep failed: ...\<close>; if it is
  applied, the step is appended to the Transform and the loop goes on with the stripped
  copy of the new document.
\<close>

theorem structural_step_on_stripped_copies:
  assumes mode: "optOr (complexSteps os) True"
    and reach: "structIters L (optOr (wordDiffs os) False) (removeMarks L toDoc) k
                  (newTransform fromDoc) = Some tr"
    and k: "k < MAX_ITERATIONS"
    and found: "findDiffStart L (removeMarks L toDoc) (removeMarks L (tdoc tr)) = Some s"
      "findDiffEnd L (removeMarks L toDoc) (removeMarks L (tdoc tr)) = Some (eT, eF)"
    and cls: "classifyDiff L (removeMarks L (tdoc tr)) (removeMarks L toDoc) s eF eT = Inr d"
      "dtype d = StructuralDiff"
  shows "(\<forall>e. getReplaceStep L (removeMarks L (tdoc tr)) (removeMarks L toDoc) = Inl e
            \<longrightarrow> recreateTransform L fromDoc toDoc os = Inl e)
    \<and> getReplaceStep L (removeMarks L (tdoc tr)) (removeMarks L toDoc) \<noteq> Inr None
    \<and> (\<forall>st. getReplaceStep L (removeMarks L (tdoc tr)) (removeMarks L toDoc) = Inr (Some st) \<longrightarrow>
          (\<forall>e. stepApply L st (tdoc tr) = Thrown e
              \<longrightarrow> recreateTransform L fromDoc toDoc os = Inl e)
        \<and> (\<forall>failed. stepApply L st (tdoc tr) = Failed failed
              \<longrightarrow> recreateTransform L fromDoc toDoc os
                    = Inl (Error (''ReplaceStep failed: '' @ failed)))
        \<and> (\<forall>d'. stepApply L st (tdoc tr) = Applied d'
              \<longrightarrow> structIters L (optOr (wordDiffs os) False) (removeMarks L toDoc) (Suc k)
                      (newTransform fromDoc)
                    = Some (tr\<lparr>tdoc := d', tsteps := tsteps tr @ [st]\<rparr>)
                \<and> structuralLoop L (optOr (wordDiffs os) False) (removeMarks L toDoc)
                      (newTransform fromDoc) (removeMarks L fromDoc) 0
                    = structuralLoop L (optOr (wordDiffs os) False) (removeMarks L toDoc)
                        (tr\<lparr>tdoc := d', tsteps := tsteps tr @ [st]\<rparr>) (removeMarks L d')
                        (Suc k)))"
proof -
  let ?wd = "optOr (wordDiffs os) False"
  let ?t = "removeMarks L toDoc"
  let ?c = "removeMarks L (tdoc tr)"
  note body = structural_body_structural[OF found cls, of ?wd tr]
  have thrown: "recreateTransform L fromDoc toDoc os = Inl e"
    if "structuralBody L ?wd ?t tr ?c = Inl e" for e
    using recreate_error_init[OF mode structural_pass_throws[OF reach k that]] .
  have p1: "recreateTransform L fromDoc toDoc os = Inl e"
    if "getReplaceStep L ?c ?t = Inl e" for e
    using thrown[of e] body that by simp
  have p2: "getReplaceStep L ?c ?t \<noteq> Inr None"
    using getReplaceStep_detected[OF found(1)] .
  have p3: "recreateTransform L fromDoc toDoc os = Inl e"
    if "getReplaceStep L ?c ?t = Inr (Some st)" "stepApply L st (tdoc tr) = Thrown e" for st e
    using thrown[of e] body that by simp
  have p4: "recreateTransform L fromDoc toDoc os = Inl (Error (''ReplaceStep failed: '' @ failed))"
    if "getReplaceStep L ?c ?t = Inr (Some st)" "stepApply L st (tdoc tr) = Failed failed"
    for st failed
    using thrown[of "Error (''ReplaceStep failed: '' @ failed)"] body that by simp
  have p5: "structIters L ?wd ?t (Suc k) (newTransform fromDoc)
              = Some (tr\<lparr>tdoc := d', tsteps := tsteps tr @ [st]\<rparr>)
      \<and> structuralLoop L ?wd ?t (newTransform fromDoc) (removeMarks L fromDoc) 0
          = structuralLoop L ?wd ?t (tr\<lparr>tdoc := d', tsteps := tsteps tr @ [st]\<rparr>)
              (removeMarks L d') (Suc k)"
    if g: "getReplaceStep L ?c ?t = Inr (Some st)" and a: "stepApply L st (tdoc tr) = Applied d'"
    for st d'
  proof -
    let ?tr' = "tr\<lparr>tdoc := d', tsteps := tsteps tr @ [st]\<rparr>"
    from body g a have b: "structuralBody L ?wd ?t tr ?c = Inr (Some ?tr')" by simp
    from structuralLoop_pass[OF reach k] b
    have "structuralLoop L ?wd ?t (newTransform fromDoc) (removeMarks L fromDoc) 0
          = structuralLoop L ?wd ?t ?tr' (removeMarks L d') (Suc k)"
      by (simp add: newTransform_def del: structuralLoop.simps)
    with structIters_Suc_end[OF reach b] show ?thesis by simp
  qed
  from p1 p2 p3 p4 p5 show ?thesis by blast
qed

theorem structural_step_on_stripped_copies_witness:
  "structIters refLib False (removeMarks refLib docABCb) (Suc 0) (newTransform docAB)
     = Some \<lparr>tdoc = docABC,
             tsteps = [ReplaceStep 4 4 (Slice [heading [TextNode ''c'' []]] 0 0)]\<rparr>
   \<and> recreateTransform rejectingLib docAB docABCb (opts True False False)
     = Inl (Error ''ReplaceStep failed: Invalid content'')
   \<and> recreateTransform throwingLib docAB docABCb (opts True False False)
     = Inl (RangeError ''Position out of range'')"
proof -
  let ?os = "opts True False False"
  let ?st = "ReplaceStep 4 4 (Slice [heading [TextNode ''c'' []]] 0 0)"
  let ?d = "\<lparr>dtype = StructuralDiff, start = 4, endFrom = 4, endTo = 7, fromNode = None,
            toNode = Some (heading [TextNode ''c'' []]), textNodeStart = 4\<rparr>"
  let ?tr = "newTransform docAB"
  have m: "optOr (complexSteps ?os) True" by (simp add: opts_def optOr_def)
  have wd: "optOr (wordDiffs ?os) False = False" by (simp add: opts_def optOr_def)
  have k: "0 < MAX_ITERATIONS" by (simp add: MAX_ITERATIONS_def)
  have d: "dtype ?d = StructuralDiff" by simp
  have tr: "?tr\<lparr>tdoc := docABC, tsteps := tsteps ?tr @ [?st]\<rparr>
              = \<lparr>tdoc = docABC, tsteps = [?st]\<rparr>" by (simp add: newTransform_def)
  have e: "''ReplaceStep failed: '' @ ''Invalid content'' = ''ReplaceStep failed: Invalid content''"
    by simp
  \<comment> \<open>the reference engine applies the step\<close>
  have r1: "structIters refLib (optOr (wordDiffs ?os) False) (removeMarks refLib docABCb) 0 ?tr
              = Some ?tr" by simp
  have f1: "findDiffStart refLib (removeMarks refLib docABCb) (removeMarks refLib (tdoc ?tr)) = Some 4"
    and f2: "findDiffEnd refLib (removeMarks refLib docABCb) (removeMarks refLib (tdoc ?tr)) = Some (7, 4)"
    and f3: "classifyDiff refLib (removeMarks refLib (tdoc ?tr)) (removeMarks refLib docABCb) 4 4 7
               = Inr ?d"
    and g1: "getReplaceStep refLib (removeMarks refLib (tdoc ?tr)) (removeMarks refLib docABCb)
               = Inr (Some ?st)"
    and a1: "stepApply refLib ?st (tdoc ?tr) = Applied docABC"
    by code_simp+
  note c1 = structural_step_on_stripped_copies[OF m r1 k f1 f2 f3 d, THEN conjunct2,
      THEN conjunct2, rule_format, OF g1, THEN conjunct2, THEN conjunct2, rule_format, OF a1,
      THEN conjunct1, unfolded wd tr]
  \<comment> \<open>an engine that rejects the step\<close>
  have r2: "structIters rejectingLib (optOr (wordDiffs ?os) False) (removeMarks rejectingLib docABCb)
              0 ?tr = Some ?tr" by simp
  have f1': "findDiffStart rejectingLib (removeMarks rejectingLib docABCb)
               (removeMarks rejectingLib (tdoc ?tr)) = Some 4"
    and f2': "findDiffEnd rejectingLib (removeMarks rejectingLib docABCb)
               (removeMarks rejectingLib (tdoc ?tr)) = Some (7, 4)"
    and f3': "classifyDiff rejectingLib (removeMarks rejectingLib (tdoc ?tr))
               (removeMarks rejectingLib docABCb) 4 4 7 = Inr ?d"
    and g2: "getReplaceStep rejectingLib (removeMarks rejectingLib (tdoc ?tr))
               (removeMarks rejectingLib docABCb) = Inr (Some ?st)"
    and a2: "stepApply rejectingLib ?st (tdoc ?tr) = Failed ''Invalid content''"
    by code_simp+
  note c2 = structural_step_on_stripped_copies[OF m r2 k f1' f2' f3' d, THEN conjunct2,
      THEN conjunct2, rule_format, OF g2, THEN conjunct2, THEN conjunct1, rule_format, OF a2,
      unfolded e]
  \<comment> \<open>an engine in which applying the step throws\<close>
  have r3: "structIters throwingLib (optOr (wordDiffs ?os) False) (removeMarks throwingLib docABCb)
              0 ?tr = Some ?tr" by simp
  have f1'': "findDiffStart throwingLib (removeMarks throwingLib docABCb)
               (removeMarks throwingLib (tdoc ?tr)) = Some 4"
    and f2'': "findDiffEnd throwingLib (removeMarks throwingLib docABCb)
               (removeMarks throwingLib (tdoc ?tr)) = Some (7, 4)"
    and f3'': "classifyDiff throwingLib (removeMarks throwingLib (tdoc ?tr))
               (removeMarks throwingLib docABCb) 4 4 7 = Inr ?d"
    and g3: "getReplaceStep throwingLib (removeMarks throwingLib (tdoc ?tr))
               (removeMarks throwingLib docABCb) = Inr (Some ?st)"
    and a3: "stepApply throwingLib ?st (tdoc ?tr) = Thrown (RangeError ''Position out of range'')"
    by code_simp+
  note c3 = structural_step_on_stripped_copies[OF m r3 k f1'' f2'' f3'' d, THEN conjunct2,
      THEN conjunct2, rule_format, OF g3, THEN conjunct1, rule_format, OF a3]
  show ?thesis by (intro conjI) (rule c1, rule c2, rule c3)
qed

theorem structural_step_on_full_documents_counterexample:
  "recreateTransform refLib docAB docABCb (opts True False False)
     = Inr \<lparr>tdoc = docABCb,
            tsteps = [ReplaceStep 4 4 (Slice [heading [TextNode ''c'' []]] 0 0),
                      AddMarkStep 5 6 bold]\<rparr>
   \<and> classifyDiff refLib (removeMarks refLib docAB) (removeMarks refLib docABCb) 4 4 7
     = Inr \<lparr>dtype = StructuralDiff, start = 4, endFrom = 4, endTo = 7, fromNode = None,
            toNode = Some (heading [TextNode ''c'' []]), textNodeStart = 4\<rparr>
   \<and> getReplaceStep refLib docAB docABCb
     = Inr (Some (ReplaceStep 4 4 (Slice [heading [TextNode ''c'' [bold]]] 0 0)))
   \<and> ReplaceStep 4 4 (Slice [heading [TextNode ''c'' []]] 0 0)
     \<noteq> ReplaceStep 4 4 (Slice [heading [TextNode ''c'' [bold]]] 0 0)"
  by code_simp

subsection \<open>The annotations of inserted text\<close>

lemma textEdits_marks:
  "e \<in> set (textEdits ms off ds) \<Longrightarrow> insertedNode e = Some n \<Longrightarrow> marks n = ms"
proof (induction ms off ds rule: textEdits.induct)
  case (1 ms offset)
  then show ?case by simp
next
  case (2 ms offset d ds)
  show ?case
  proof (cases "added d")
    case True
    show ?thesis
    proof (cases "cvalue d = []")
      case True
      with \<open>added d\<close> "2.prems" show ?thesis by simp
    next
      case False
      show ?thesis
      proof (cases ds)
        case Nil
        with \<open>added d\<close> False "2.prems" "2.IH" show ?thesis by auto
      next
        case (Cons x rest)
        show ?thesis
        proof (cases "removed x")
          case True
          with Cons \<open>added d\<close> False "2.prems" "2.IH" show ?thesis by auto
        next
          case nr: False
          with Cons \<open>added d\<close> False "2.prems" "2.IH" show ?thesis by auto
        qed
      qed
    qed
  next
    case na: False
    show ?thesis
    proof (cases "removed d")
      case True
      show ?thesis
      proof (cases ds)
        case Nil
        with na True "2.prems" "2.IH" show ?thesis by auto
      next
        case (Cons x rest)
        show ?thesis
        proof (cases "added x")
          case ax: True
          show ?thesis
          proof (cases "cvalue x = []")
            case True
            with Cons na \<open>removed d\<close> ax "2.prems" show ?thesis by simp
          next
            case False
            with Cons na \<open>removed d\<close> ax "2.prems" "2.IH" show ?thesis by auto
          qed
        next
          case False
          with Cons na True "2.prems" "2.IH" show ?thesis by auto
        qed
      qed
    next
      case False
      with na "2.prems" "2.IH" show ?thesis by auto
    qed
  qed
qed

text \<open>
  C4 (amended). For a text divergence, every text node the text run editor inserts
  carries one and the same annotation list: the one resolved, once and before the first
  edit, in the current (annotated) document at the position one past the start of the
  text run.
\<close>

theorem inserted_text_marks:
  assumes "fromNode d = Some f" and "toNode d = Some t"
    and "resolve L (tdoc tr) (textNodeStart d + 1) = Some pos"
  shows "applyTextDiff L wd d tr
           = applyEdits L (textEdits (posMarks pos) (textNodeStart d)
                             (textDiffsOf L wd (textOrEmpty f) (textOrEmpty t))) tr
    \<and> (\<forall>e \<in> set (textEdits (posMarks pos) (textNodeStart d)
                      (textDiffsOf L wd (textOrEmpty f) (textOrEmpty t))).
          \<forall>n. insertedNode e = Some n \<longrightarrow> marks n = posMarks pos)"
proof
  from assms show "applyTextDiff L wd d tr
           = applyEdits L (textEdits (posMarks pos) (textNodeStart d)
                             (textDiffsOf L wd (textOrEmpty f) (textOrEmpty t))) tr"
    by (simp add: applyTextDiff_def)
  show "\<forall>e \<in> set (textEdits (posMarks pos) (textNodeStart d)
                      (textDiffsOf L wd (textOrEmpty f) (textOrEmpty t))).
          \<forall>n. insertedNode e = Some n \<longrightarrow> marks n = posMarks pos"
    using textEdits_marks by blast
qed

theorem inserted_text_marks_witness:
  "applyTextDiff refLib False
      (mkDiff TextDiff 4 5 6 (Some (TextNode ''abcd'' [])) (Some (TextNode ''abcXd'' [])) 1)
      (newTransform docBoldRun)
     = applyEdits refLib [Insert 4 (TextNode ''X'' [bold])] (newTransform docBoldRun)
   \<and> resolve refLib docBoldRun 2
     = Some \<lparr>depth = 1, parent = par [TextNode ''ab'' [bold], TextNode ''cd'' []],
             textOffset = 1, nodeBefore = Some (TextNode ''a'' [bold]), posMarks = [bold]\<rparr>"
proof -
  let ?d = "mkDiff TextDiff 4 5 6 (Some (TextNode ''abcd'' [])) (Some (TextNode ''abcXd'' [])) 1"
  let ?p = "\<lparr>depth = 1, parent = par [TextNode ''ab'' [bold], TextNode ''cd'' []],
             textOffset = 1, nodeBefore = Some (TextNode ''a'' [bold]), posMarks = [bold]\<rparr>"
  have h1: "fromNode ?d = Some (TextNode ''abcd'' [])" by (simp add: mkDiff_def)
  have h2: "toNode ?d = Some (TextNode ''abcXd'' [])" by (simp add: mkDiff_def)
  have h3: "resolve refLib (tdoc (newTransform docBoldRun)) (textNodeStart ?d + 1) = Some ?p"
    by code_simp
  have e: "textEdits (posMarks ?p) (textNodeStart ?d)
             (textDiffsOf refLib False (textOrEmpty (TextNode ''abcd'' []))
                (textOrEmpty (TextNode ''abcXd'' [])))
           = [Insert 4 (TextNode ''X'' [bold])]"
    by code_simp
  have r: "resolve refLib docBoldRun 2 = Some ?p" by code_simp
  from inserted_text_marks[OF h1 h2 h3, of False] e r show ?thesis by simp
qed

theorem inserted_text_marks_counterexample:
  "classifyDiff refLib (removeMarks refLib docBoldRun) (removeMarks refLib docBoldRunX) 4 5 6
     = Inr (mkDiff TextDiff 4 5 6 (Some (TextNode ''abcd'' [])) (Some (TextNode ''abcXd'' [])) 1)
   \<and> applyTextDiff refLib False
        (mkDiff TextDiff 4 5 6 (Some (TextNode ''abcd'' [])) (Some (TextNode ''abcXd'' [])) 1)
        (newTransform docBoldRun)
     = Inr \<lparr>tdoc = mkdoc [par [TextNode ''ab'' [bold], TextNode ''c'' [],
                                 TextNode ''X'' [bold], TextNode ''d'' []]],
            tsteps = [ReplaceStep 4 4 (Slice [TextNode ''X'' [bold]] 0 0)]\<rparr>
   \<and> map_option posMarks (resolve refLib docBoldRun 4) = Some []
   \<and> map_option posMarks (resolve refLib docBoldRun 5) = Some []
   \<and> [bold] \<noteq> ([] :: mark list)"
  by code_simp
subsection \<open>No divergence is swallowed\<close>

text \<open>
  C3. In detailed mode, when the loop reaches a pass that detects a divergence and leaves
  the Transform as it was, the reconstruction ends with an error: the pass either throws
  or repeats unchanged until the cap, which raises the max-iterations error. The
  divergence locator is taken to meet its contract, that its end scan finds a divergence
  whenever its start scan does. In simple mode a pass that detects a divergence either
  throws or appends a step.
\<close>

theorem divergence_never_swallowed:
  "((\<forall>a b. findDiffEnd L a b = None \<longrightarrow> findDiffStart L a b = None) \<longrightarrow>
    optOr (complexSteps os) True \<longrightarrow>
    structIters L (optOr (wordDiffs os) False) (removeMarks L toDoc) k (newTransform fromDoc)
      = Some tr \<longrightarrow>
    k < MAX_ITERATIONS \<longrightarrow>
    findDiffStart L (removeMarks L toDoc) (removeMarks L (tdoc tr)) \<noteq> None \<longrightarrow>
    (\<forall>tr'. structuralBody L (optOr (wordDiffs os) False) (removeMarks L toDoc) tr
             (removeMarks L (tdoc tr)) = Inr (Some tr') \<longrightarrow> tr' = tr) \<longrightarrow>
    (\<exists>e. recreateTransform L fromDoc toDoc os = Inl e))
   \<and> (findDiffStart L toDoc cur \<noteq> None \<longrightarrow>
        (\<exists>e. allBody L toDoc tr2 cur = Inl e)
        \<or> (\<exists>st d'. allBody L toDoc tr2 cur
                      = Inr (Some (tr2\<lparr>tdoc := d', tsteps := tsteps tr2 @ [st]\<rparr>))))"
proof (intro conjI impI)
  let ?wd = "optOr (wordDiffs os) False"
  let ?t = "removeMarks L toDoc"
  let ?tr0 = "newTransform fromDoc"
  assume contract: "\<forall>a b. findDiffEnd L a b = None \<longrightarrow> findDiffStart L a b = None"
    and mode: "optOr (complexSteps os) True"
    and reach: "structIters L ?wd ?t k ?tr0 = Some tr"
    and k: "k < MAX_ITERATIONS"
    and detect: "findDiffStart L ?t (removeMarks L (tdoc tr)) \<noteq> None"
    and nostep: "\<forall>tr'. structuralBody L ?wd ?t tr (removeMarks L (tdoc tr)) = Inr (Some tr') \<longrightarrow> tr' = tr"
  have t0: "tdoc ?tr0 = fromDoc" by (simp add: newTransform_def)
  from structuralLoop_iters[OF reach, of 0] k t0
  have loop: "structuralLoop L ?wd ?t ?tr0 (removeMarks L fromDoc) 0
                = structuralLoop L ?wd ?t tr (removeMarks L (tdoc tr)) k"
    by simp
  have "\<exists>e. recreateStructuralSteps L ?wd fromDoc toDoc ?tr0 = Inl e"
  proof (cases "structuralBody L ?wd ?t tr (removeMarks L (tdoc tr))")
    case (Inl e)
    with k have "structuralLoop L ?wd ?t tr (removeMarks L (tdoc tr)) k = (k, Inl e)"
      by (subst structuralLoop.simps) simp
    with loop show ?thesis by (simp add: recreateStructuralSteps_def)
  next
    case (Inr r)
    with structuralBody_detected[OF contract detect, of ?wd tr] nostep
    have "structuralBody L ?wd ?t tr (removeMarks L (tdoc tr)) = Inr (Some tr)"
      by (cases r) auto
    from structural_stall[OF this, of k] k
    have "structuralLoop L ?wd ?t tr (removeMarks L (tdoc tr)) k = (MAX_ITERATIONS, Inr tr)"
      by simp
    with loop show ?thesis by (simp add: recreateStructuralSteps_def)
  qed
  then obtain e where "recreateStructuralSteps L ?wd fromDoc toDoc ?tr0 = Inl e" by blast
  from recreate_error_init[OF mode this]
  show "\<exists>e. recreateTransform L fromDoc toDoc os = Inl e" by blast
next
  assume "findDiffStart L toDoc cur \<noteq> None"
  then obtain s where s: "findDiffStart L toDoc cur = Some s" by auto
  then have g: "getReplaceStep L cur toDoc \<noteq> Inr None"
    by (auto simp: getReplaceStep_def Let_def split: option.splits sum.splits if_splits)
  show "(\<exists>e. allBody L toDoc tr2 cur = Inl e)
        \<or> (\<exists>st d'. allBody L toDoc tr2 cur
                      = Inr (Some (tr2\<lparr>tdoc := d', tsteps := tsteps tr2 @ [st]\<rparr>)))"
  proof (cases "getReplaceStep L cur toDoc")
    case (Inl e)
    then show ?thesis by (simp add: allBody_def)
  next
    case (Inr r)
    with g obtain st where st: "getReplaceStep L cur toDoc = Inr (Some st)" by (cases r) auto
    show ?thesis
    proof (cases "stepApply L st (tdoc tr2)")
      case (Thrown e)
      with st show ?thesis by (simp add: allBody_def maybeStep_def)
    next
      case (Failed f)
      with st show ?thesis by (simp add: allBody_def maybeStep_def)
    next
      case (Applied d')
      with st show ?thesis by (auto simp: allBody_def maybeStep_def)
    qed
  qed
qed

theorem divergence_never_swallowed_witness:
  "findDiffStart silentDiffLib (removeMarks silentDiffLib docHelloThere)
      (removeMarks silentDiffLib (tdoc (newTransform docHelloWorld))) = Some 7
   \<and> structuralBody silentDiffLib False (removeMarks silentDiffLib docHelloThere)
        (newTransform docHelloWorld) (removeMarks silentDiffLib (tdoc (newTransform docHelloWorld)))
       = Inr (Some (newTransform docHelloWorld))
   \<and> (\<exists>e. recreateTransform silentDiffLib docHelloWorld docHelloThere (opts True False True) = Inl e)
   \<and> findDiffStart refLib docABC docAB = Some 4
   \<and> allBody refLib docABC (newTransform docAB) docAB
       = Inr (Some \<lparr>tdoc = docABC,
                     tsteps = [ReplaceStep 4 4 (Slice [heading [TextNode ''c'' []]] 0 0)]\<rparr>)"
proof -
  let ?L = silentDiffLib
  let ?tr = "newTransform docHelloWorld"
  let ?o = "opts True False True"
  have c: "\<forall>a b. findDiffEnd ?L a b = None \<longrightarrow> findDiffStart ?L a b = None"
    by (simp add: findDiffEndR_None)
  have m: "optOr (complexSteps ?o) True" by (simp add: opts_def optOr_def)
  have w: "optOr (wordDiffs ?o) False = False" by (simp add: opts_def optOr_def)
  have r: "structIters ?L (optOr (wordDiffs ?o) False) (removeMarks ?L docHelloThere) 0 ?tr = Some ?tr"
    by simp
  have k: "0 < MAX_ITERATIONS" by (simp add: MAX_ITERATIONS_def)
  have d: "findDiffStart ?L (removeMarks ?L docHelloThere) (removeMarks ?L (tdoc ?tr)) = Some 7"
    by code_simp
  have b: "structuralBody ?L False (removeMarks ?L docHelloThere) ?tr (removeMarks ?L (tdoc ?tr))
             = Inr (Some ?tr)"
    by code_simp
  have d2: "findDiffStart refLib docABC docAB = Some 4" by code_simp
  have b2: "allBody refLib docABC (newTransform docAB) docAB
       = Inr (Some \<lparr>tdoc = docABC,
                     tsteps = [ReplaceStep 4 4 (Slice [heading [TextNode ''c'' []]] 0 0)]\<rparr>)"
    by code_simp
  from divergence_never_swallowed[where L = ?L and os = ?o and toDoc = docHelloThere
      and fromDoc = docHelloWorld and k = 0 and tr = ?tr, THEN conjunct1, rule_format, OF c[rule_format] m r k]
    d b w
  have e: "\<exists>e. recreateTransform ?L docHelloWorld docHelloThere ?o = Inl e" by simp
  from d b e d2 b2 show ?thesis by blast
qed
subsection \<open>Merging an added and a removed segment\<close>

text \<open>
  C8 (amended). In the text run editor, an added segment immediately followed by a
  removed one, or a removed segment immediately followed by an added one, becomes one
  replace-range edit: it deletes the removed segment's length at the current offset and
  inserts the added text there. For \<open>Hello world\<close> and \<open>Hello there\<close> the result is one
  replace-range edit deleting \<open>world\<close> and inserting \<open>there\<close> at offset 7 whenever the
  text diff reports \<open>Hello \<close> unchanged, \<open>world\<close> removed and \<open>there\<close> added, as the
  word diff does.
\<close>

theorem text_edits_merge:
  "(added d \<longrightarrow> cvalue d \<noteq> [] \<longrightarrow> removed n \<longrightarrow>
      textEdits ms off (d # n # rest)
        = ReplaceWith off (off + int (length (cvalue n))) (TextNode (cvalue d) ms)
            # textEdits ms (off + int (length (cvalue d))) rest)
   \<and> (\<not> added d \<longrightarrow> removed d \<longrightarrow> added n \<longrightarrow> cvalue n \<noteq> [] \<longrightarrow>
      textEdits ms off (d # n # rest)
        = ReplaceWith off (off + int (length (cvalue d))) (TextNode (cvalue n) ms)
            # textEdits ms (off + int (length (cvalue n))) rest)
   \<and> (textDiffsOf L wd ''Hello world'' ''Hello there''
         = [\<lparr>cvalue = ''Hello '', added = False, removed = False\<rparr>,
            \<lparr>cvalue = ''world'', added = False, removed = True\<rparr>,
            \<lparr>cvalue = ''there'', added = True, removed = False\<rparr>] \<longrightarrow>
       resolve L (tdoc tr) 2 = Some pos \<longrightarrow>
       applyTextDiff L wd
         (mkDiff TextDiff 7 12 12 (Some (TextNode ''Hello world'' []))
            (Some (TextNode ''Hello there'' [])) 1) tr
         = replaceWith L 7 12 (TextNode ''there'' (posMarks pos)) tr)"
proof (intro conjI impI)
  assume "textDiffsOf L wd ''Hello world'' ''Hello there''
         = [\<lparr>cvalue = ''Hello '', added = False, removed = False\<rparr>,
            \<lparr>cvalue = ''world'', added = False, removed = True\<rparr>,
            \<lparr>cvalue = ''there'', added = True, removed = False\<rparr>]"
    and "resolve L (tdoc tr) 2 = Some pos"
  then show "applyTextDiff L wd
         (mkDiff TextDiff 7 12 12 (Some (TextNode ''Hello world'' []))
            (Some (TextNode ''Hello there'' [])) 1) tr
         = replaceWith L 7 12 (TextNode ''there'' (posMarks pos)) tr"
    by (cases "replaceWith L 7 12 (TextNode ''there'' (posMarks pos)) tr")
       (simp_all add: applyTextDiff_def mkDiff_def textOrEmpty_def)
qed simp_all

theorem text_edits_merge_witness:
  "textDiffsOf refLib True ''Hello world'' ''Hello there''
         = [\<lparr>cvalue = ''Hello '', added = False, removed = False\<rparr>,
            \<lparr>cvalue = ''world'', added = False, removed = True\<rparr>,
            \<lparr>cvalue = ''there'', added = True, removed = False\<rparr>]
   \<and> applyTextDiff refLib True
         (mkDiff TextDiff 7 12 12 (Some (TextNode ''Hello world'' []))
            (Some (TextNode ''Hello there'' [])) 1) (newTransform docHelloWorld)
       = replaceWith refLib 7 12 (TextNode ''there'' []) (newTransform docHelloWorld)
   \<and> textEdits [] 7 [\<lparr>cvalue = ''world'', added = False, removed = True\<rparr>,
                     \<lparr>cvalue = ''there'', added = True, removed = False\<rparr>]
       = [ReplaceWith 7 12 (TextNode ''there'' [])]
   \<and> textEdits [] 7 [\<lparr>cvalue = ''there'', added = True, removed = False\<rparr>,
                     \<lparr>cvalue = ''world'', added = False, removed = True\<rparr>]
       = [ReplaceWith 7 12 (TextNode ''there'' [])]"
proof -
  let ?w = "\<lparr>cvalue = ''world'', added = False, removed = True\<rparr>"
  let ?t = "\<lparr>cvalue = ''there'', added = True, removed = False\<rparr>"
  let ?p = "\<lparr>depth = 1, parent = par [TextNode ''Hello world'' []], textOffset = 1,
             nodeBefore = Some (TextNode ''H'' []), posMarks = []\<rparr>"
  have h1: "textDiffsOf refLib True ''Hello world'' ''Hello there''
         = [\<lparr>cvalue = ''Hello '', added = False, removed = False\<rparr>, ?w, ?t]"
    by code_simp
  have h2: "resolve refLib (tdoc (newTransform docHelloWorld)) 2 = Some ?p" by code_simp
  note m1 = text_edits_merge[where L = refLib and wd = True and tr = "newTransform docHelloWorld"
      and pos = ?p and d = ?t and n = ?w and ms = "[]" and off = 7 and rest = "[]"]
  note m2 = text_edits_merge[where L = refLib and wd = True and tr = "newTransform docHelloWorld"
      and pos = ?p and d = ?w and n = ?t and ms = "[]" and off = 7 and rest = "[]"]
  from m1 h1 h2 have a: "applyTextDiff refLib True
         (mkDiff TextDiff 7 12 12 (Some (TextNode ''Hello world'' []))
            (Some (TextNode ''Hello there'' [])) 1) (newTransform docHelloWorld)
       = replaceWith refLib 7 12 (TextNode ''there'' []) (newTransform docHelloWorld)"
    by simp
  from m1 have b: "textEdits [] 7 [?t, ?w] = [ReplaceWith 7 12 (TextNode ''there'' [])]" by simp
  from m2 have c: "textEdits [] 7 [?w, ?t] = [ReplaceWith 7 12 (TextNode ''there'' [])]" by simp
  from h1 a b c show ?thesis by simp
qed

theorem hello_world_character_mode_counterexample:
  "classifyDiff refLib (removeMarks refLib docHelloWorld) (removeMarks refLib docHelloThere) 7 12 12
     = Inr (mkDiff TextDiff 7 12 12 (Some (TextNode ''Hello world'' []))
              (Some (TextNode ''Hello there'' [])) 1)
   \<and> diffChars refLib ''Hello world'' ''Hello there''
     = [\<lparr>cvalue = ''Hello '', added = False, removed = False\<rparr>,
        \<lparr>cvalue = ''wo'', added = False, removed = True\<rparr>,
        \<lparr>cvalue = ''the'', added = True, removed = False\<rparr>,
        \<lparr>cvalue = ''r'', added = False, removed = False\<rparr>,
        \<lparr>cvalue = ''ld'', added = False, removed = True\<rparr>,
        \<lparr>cvalue = ''e'', added = True, removed = False\<rparr>]
   \<and> textEdits [] 1 (diffChars refLib ''Hello world'' ''Hello there'')
     = [ReplaceWith 7 9 (TextNode ''the'' []), ReplaceWith 11 13 (TextNode ''e'' [])]
   \<and> recreateTransform refLib docHelloWorld docHelloThere (opts True False True)
     = Inr \<lparr>tdoc = docHelloThere,
            tsteps = [ReplaceStep 7 9 (Slice [TextNode ''the'' []] 0 0),
                      ReplaceStep 11 13 (Slice [TextNode ''e'' []] 0 0)]\<rparr>"
  by code_simp
subsection \<open>Recreating a document against itself\<close>

text \<open>
  C9. Recreating a document against itself should give no step. For a paragraph holding
  an inline node whose text carries an annotation, the mark reconciler pairs the inline
  node with its own text, removes the annotation and adds it again: the detailed mode
  returns four steps.
\<close>

theorem self_recreate_nested_inline:
  "recreateTransform refLib docFootnote docFootnote (opts True False False)
     = Inr \<lparr>tdoc = docFootnote,
            tsteps = [RemoveMarkStep 2 3 bold, AddMarkStep 2 3 bold, AddMarkStep 2 3 bold,
                      AddMarkStep 2 3 bold]\<rparr>"
  by code_simp
subsection \<open>Round trip\<close>




end
